theory Spec2Isabelle
  imports Main "HOL-Library.AList" "HOL-Library.Char_ord" "HOL-Library.List_Lexorder"
    "HOL-Library.Sublist"
begin

section \<open>PKI management console for step-ca: a model of \<^verbatim>\<open>streamlit/app.py\<close>\<close>

text \<open>
  The console wraps the \<^verbatim>\<open>step\<close> command-line tool and keeps one directory per issued
  certificate below \<^verbatim>\<open>CERTS_DIR\<close>. The model makes the two effects of the program
  explicit: the file system (a tree of directories and files) and the list of commands
  handed to \<^verbatim>\<open>subprocess.run\<close>. The \<^verbatim>\<open>step\<close> binary, the X.509 parser of the
  \<^verbatim>\<open>cryptography\<close> package, the clock, the decoder of text files and the text Python
  prints for an exception are outside the repository; they are fields of an environment
  record, and the theorems are about an arbitrary environment.

  Text is \<^typ>\<open>string\<close>; a character stands for the code point of the same number, so
  the model covers text whose code points are below 256. The content of a file is a
  string of bytes.
\<close>

subsection \<open>Python string operations\<close>

text \<open>\<^verbatim>\<open>str.isspace\<close> on one code point below 256.\<close>

definition isspace :: "char \<Rightarrow> bool" where
  "isspace c =
     (let n = (of_char c :: nat)
      in (9 \<le> n \<and> n \<le> 13) \<or> (28 \<le> n \<and> n \<le> 32) \<or> n = 133 \<or> n = 160)"

text \<open>\<^verbatim>\<open>s.strip()\<close>: leading and trailing whitespace removed.\<close>

definition strip :: "string \<Rightarrow> string" where
  "strip s = rev (dropWhile isspace (rev (dropWhile isspace s)))"

text \<open>\<^verbatim>\<open>s.lower()\<close>: the upper-case letters below 256 are A to Z and, in Latin-1,
  192 to 222 without the multiplication sign 215; each moves up by 32.\<close>

definition lower_char :: "char \<Rightarrow> char" where
  "lower_char c =
     (let n = (of_char c :: nat)
      in if (65 \<le> n \<and> n \<le> 90) \<or> (192 \<le> n \<and> n \<le> 222 \<and> n \<noteq> 215)
         then char_of (n + 32) else c)"

definition lower :: "string \<Rightarrow> string" where
  "lower s = map lower_char s"

fun startswith :: "string \<Rightarrow> string \<Rightarrow> bool" where
  "startswith s [] = True"
| "startswith [] (p # ps) = False"
| "startswith (c # cs) (p # ps) = (c = p \<and> startswith cs ps)"

text \<open>\<^verbatim>\<open>sub in s\<close> for two strings.\<close>

fun str_in :: "string \<Rightarrow> string \<Rightarrow> bool" where
  "str_in sub [] = (sub = [])"
| "str_in sub (c # cs) = (startswith (c # cs) sub \<or> str_in sub cs)"

text \<open>\<^verbatim>\<open>s.split(sep)\<close> for a separator of one character.\<close>

fun split :: "char \<Rightarrow> string \<Rightarrow> string list" where
  "split sep [] = [[]]"
| "split sep (c # cs) =
     (if c = sep then [] # split sep cs
      else (case split sep cs of
              [] \<Rightarrow> [[c]]
            | w # ws \<Rightarrow> (c # w) # ws))"

text \<open>\<^verbatim>\<open>sep.join(xs)\<close>.\<close>

fun join :: "string \<Rightarrow> string list \<Rightarrow> string" where
  "join sep [] = []"
| "join sep [x] = x"
| "join sep (x # y # ys) = x @ sep @ join sep (y # ys)"

text \<open>\<^verbatim>\<open>str(n)\<close> for an integer: decimal digits, a minus sign when negative.\<close>

definition digit_char :: "nat \<Rightarrow> char" where
  "digit_char d = ''0123456789'' ! (d mod 10)"

fun str_nat :: "nat \<Rightarrow> string" where
  "str_nat n = (if n < 10 then [digit_char n] else str_nat (n div 10) @ [digit_char (n mod 10)])"

declare str_nat.simps [simp del]

definition str_int :: "int \<Rightarrow> string" where
  "str_int i = (if i < 0 then CHR ''-'' # str_nat (nat (- i)) else str_nat (nat i))"

subsection \<open>pathlib: pure POSIX paths\<close>

text \<open>
  A \<^verbatim>\<open>PurePosixPath\<close> is its root (\<^verbatim>\<open>''\<close>, \<^verbatim>\<open>'/'\<close> or \<^verbatim>\<open>'//'\<close>) and its components.
  Parsing drops empty components and \<^verbatim>\<open>'.'\<close>, keeps \<^verbatim>\<open>'..'\<close>; joining with an absolute
  segment discards what came before.
\<close>

datatype path = Path (anchor: string) (parts: "string list")

definition splitroot :: "string \<Rightarrow> string" where
  "splitroot s =
     (if \<not> startswith s ''/'' then ''''
      else if startswith s ''//'' \<and> \<not> startswith s ''///'' then ''//''
      else ''/'')"

definition components :: "string \<Rightarrow> string list" where
  "components s = filter (\<lambda>x. x \<noteq> [] \<and> x \<noteq> ''.'') (split CHR ''/'' s)"

definition parse_path :: "string \<Rightarrow> path" where
  "parse_path s = Path (splitroot s) (components s)"

text \<open>\<^verbatim>\<open>p / s\<close>.\<close>

definition joinpath :: "path \<Rightarrow> string \<Rightarrow> path" where
  "joinpath p s =
     (if startswith s ''/'' then parse_path s
      else Path (anchor p) (parts p @ components s))"

text \<open>\<^verbatim>\<open>str(p)\<close>.\<close>

definition str_path :: "path \<Rightarrow> string" where
  "str_path p =
     (if anchor p = [] \<and> parts p = [] then ''.''
      else anchor p @ join ''/'' (parts p))"

text \<open>The child that \<^verbatim>\<open>iterdir\<close> yields for a directory entry: the name is appended as
  it is, without parsing.\<close>

definition child :: "path \<Rightarrow> string \<Rightarrow> path" where
  "child p n = Path (anchor p) (parts p @ [n])"

text \<open>\<^verbatim>\<open>p.name\<close>.\<close>

definition name :: "path \<Rightarrow> string" where
  "name p = (if parts p = [] then [] else last (parts p))"

subsection \<open>The file system\<close>

text \<open>
  A tree: a regular file with its content (bytes, one character each), or a directory
  with its entries. A name is at most \<^verbatim>\<open>NAME_MAX\<close> bytes long and a path shorter than
  \<^verbatim>\<open>PATH_MAX\<close> bytes, in UTF-8, where a code point from 128 on takes two bytes. There
  are no symbolic links and no permissions; apart from the limits on names, the one way
  the system may refuse a change is a file system mounted read-only. Names are assumed
  free of the NUL character.
\<close>

datatype node = File string | Dir "(string \<times> node) list"

datatype errno =
  ENOENT | EEXIST | ENOTDIR | EISDIR | EINVAL | ENOTEMPTY | EROFS | EBUSY | ENAMETOOLONG

record filesystem =
  tree :: node
  read_only :: bool

definition utf8_len :: "string \<Rightarrow> nat" where
  "utf8_len s = length s + length (filter (\<lambda>c. 128 \<le> (of_char c :: nat)) s)"

definition NAME_MAX :: nat where
  "NAME_MAX = 255"

definition PATH_MAX :: nat where
  "PATH_MAX = 4096"

text \<open>The node at a path without \<^verbatim>\<open>'..'\<close>, from the root.\<close>

fun lookup :: "node \<Rightarrow> string list \<Rightarrow> node option" where
  "lookup n [] = Some n"
| "lookup (File s) (c # cs) = None"
| "lookup (Dir es) (c # cs) =
     (case map_of es c of None \<Rightarrow> None | Some m \<Rightarrow> lookup m cs)"

text \<open>Replace (\<open>Some\<close>) or remove (\<open>None\<close>) the node at a path whose parent is a
  directory; anything else leaves the tree as it is.\<close>

fun put :: "node \<Rightarrow> string list \<Rightarrow> node option \<Rightarrow> node" where
  "put n [] v = (case v of None \<Rightarrow> n | Some m \<Rightarrow> m)"
| "put (File s) (c # cs) v = File s"
| "put (Dir es) [c] v =
     (case v of None \<Rightarrow> Dir (AList.delete c es) | Some m \<Rightarrow> Dir (AList.update c m es))"
| "put (Dir es) (c # d # ds) v =
     (case map_of es c of
        None \<Rightarrow> Dir es
      | Some m \<Rightarrow> Dir (AList.update c (put m (d # ds) v) es))"

text \<open>Path resolution as the kernel does it: a path of \<^verbatim>\<open>PATH_MAX\<close> bytes or more is
  refused at once; then every component is looked up in a directory that exists, a
  component longer than \<^verbatim>\<open>NAME_MAX\<close> is refused there, and \<^verbatim>\<open>'..'\<close> steps to the
  parent (the root is its own parent).\<close>

fun walk :: "node \<Rightarrow> string list \<Rightarrow> string list \<Rightarrow> errno + string list" where
  "walk t cur [] = Inr cur"
| "walk t cur (c # cs) =
     (case lookup t cur of
        None \<Rightarrow> Inl ENOENT
      | Some (File s) \<Rightarrow> Inl ENOTDIR
      | Some (Dir es) \<Rightarrow>
          if NAME_MAX < utf8_len c then Inl ENAMETOOLONG
          else walk t (if c = ''..'' then butlast cur else cur @ [c]) cs)"

definition resolve :: "filesystem \<Rightarrow> path \<Rightarrow> errno + string list" where
  "resolve fs p =
     (if PATH_MAX \<le> utf8_len (str_path p) then Inl ENAMETOOLONG
      else walk (tree fs) [] (parts p))"

definition stat :: "filesystem \<Rightarrow> path \<Rightarrow> errno + node" where
  "stat fs p =
     (case resolve fs p of
        Inl e \<Rightarrow> Inl e
      | Inr q \<Rightarrow> (case lookup (tree fs) q of None \<Rightarrow> Inl ENOENT | Some n \<Rightarrow> Inr n))"

text \<open>
  \<^verbatim>\<open>Path.exists()\<close> and \<^verbatim>\<open>Path.is_dir()\<close>, as in Python up to 3.12: an \<^verbatim>\<open>OSError\<close> of
  \<^verbatim>\<open>stat\<close> is ignored, and the answer is false, when its number is \<^verbatim>\<open>ENOENT\<close> or
  \<^verbatim>\<open>ENOTDIR\<close> (or \<^verbatim>\<open>EBADF\<close>, \<^verbatim>\<open>ELOOP\<close>, which this file system never gives); any other,
  here \<^verbatim>\<open>ENAMETOOLONG\<close>, is raised.
\<close>

definition ignore_error :: "errno \<Rightarrow> bool" where
  "ignore_error e = (e = ENOENT \<or> e = ENOTDIR)"

definition exists :: "filesystem \<Rightarrow> path \<Rightarrow> errno + bool" where
  "exists fs p =
     (case stat fs p of
        Inr n \<Rightarrow> Inr True
      | Inl e \<Rightarrow> if ignore_error e then Inr False else Inl e)"

definition is_dir :: "filesystem \<Rightarrow> path \<Rightarrow> errno + bool" where
  "is_dir fs p =
     (case stat fs p of
        Inr (Dir es) \<Rightarrow> Inr True
      | Inr (File s) \<Rightarrow> Inr False
      | Inl e \<Rightarrow> if ignore_error e then Inr False else Inl e)"

text \<open>\<^verbatim>\<open>os.mkdir\<close>.\<close>

definition os_mkdir :: "filesystem \<Rightarrow> path \<Rightarrow> errno + filesystem" where
  "os_mkdir fs p =
     (case resolve fs p of
        Inl e \<Rightarrow> Inl e
      | Inr q \<Rightarrow>
          (case lookup (tree fs) q of
             Some n \<Rightarrow> Inl EEXIST
           | None \<Rightarrow>
               if read_only fs then Inl EROFS
               else Inr (fs\<lparr>tree := put (tree fs) q (Some (Dir []))\<rparr>)))"

text \<open>
  \<^verbatim>\<open>Path.mkdir(parents=True, exist_ok=True)\<close>, as pathlib does it: try \<^verbatim>\<open>os.mkdir\<close>; on
  \<^verbatim>\<open>FileNotFoundError\<close> make the parent the same way and try once more (now without
  \<^verbatim>\<open>parents\<close>); any other \<^verbatim>\<open>OSError\<close> is ignored when \<^verbatim>\<open>is_dir()\<close> says that the path
  is a directory, and an exception of \<^verbatim>\<open>is_dir()\<close> takes its place.
\<close>

function mkdir_parents :: "filesystem \<Rightarrow> string \<Rightarrow> string list \<Rightarrow> errno + filesystem" where
  "mkdir_parents fs a ps =
     (case os_mkdir fs (Path a ps) of
        Inr fs' \<Rightarrow> Inr fs'
      | Inl e \<Rightarrow>
          if e = ENOENT then
            (if ps = [] then Inl ENOENT
             else (case mkdir_parents fs a (butlast ps) of
                     Inl e' \<Rightarrow> Inl e'
                   | Inr fs1 \<Rightarrow>
                       (case os_mkdir fs1 (Path a ps) of
                          Inr fs2 \<Rightarrow> Inr fs2
                        | Inl e2 \<Rightarrow>
                            if e2 = ENOENT then Inl e2
                            else (case is_dir fs1 (Path a ps) of
                                    Inl e3 \<Rightarrow> Inl e3
                                  | Inr d \<Rightarrow> if d then Inr fs1 else Inl e2))))
          else (case is_dir fs (Path a ps) of
                  Inl e3 \<Rightarrow> Inl e3
                | Inr d \<Rightarrow> if d then Inr fs else Inl e))"
  by pat_completeness auto
termination
  by (relation "measure (\<lambda>(fs, a, ps). length ps)") auto

declare mkdir_parents.simps [simp del]

definition mkdir :: "filesystem \<Rightarrow> path \<Rightarrow> errno + filesystem" where
  "mkdir fs p = mkdir_parents fs (anchor p) (parts p)"

text \<open>The bytes of a file, as \<^verbatim>\<open>open(p, "rb").read()\<close> gives them.\<close>

definition read_file :: "filesystem \<Rightarrow> path \<Rightarrow> errno + string" where
  "read_file fs p =
     (case stat fs p of
        Inl e \<Rightarrow> Inl e
      | Inr (Dir es) \<Rightarrow> Inl EISDIR
      | Inr (File s) \<Rightarrow> Inr s)"

text \<open>\<^verbatim>\<open>open(p, "wb").write(s)\<close>: creates the file or replaces its content.\<close>

definition write_file :: "filesystem \<Rightarrow> path \<Rightarrow> string \<Rightarrow> errno + filesystem" where
  "write_file fs p s =
     (case resolve fs p of
        Inl e \<Rightarrow> Inl e
      | Inr q \<Rightarrow>
          (case lookup (tree fs) q of
             Some (Dir es) \<Rightarrow> Inl EISDIR
           | _ \<Rightarrow>
               if read_only fs then Inl EROFS
               else Inr (fs\<lparr>tree := put (tree fs) q (Some (File s))\<rparr>)))"

text \<open>\<^verbatim>\<open>os.listdir\<close>: every entry name once.\<close>

definition listdir :: "filesystem \<Rightarrow> path \<Rightarrow> errno + string list" where
  "listdir fs p =
     (case stat fs p of
        Inl e \<Rightarrow> Inl e
      | Inr (File s) \<Rightarrow> Inl ENOTDIR
      | Inr (Dir es) \<Rightarrow> Inr (remdups (map fst es)))"

text \<open>\<^verbatim>\<open>shutil.rmtree\<close>: removes a directory with all it holds; a regular file is
  refused.\<close>

definition rmtree :: "filesystem \<Rightarrow> path \<Rightarrow> errno + filesystem" where
  "rmtree fs p =
     (case resolve fs p of
        Inl e \<Rightarrow> Inl e
      | Inr q \<Rightarrow>
          (case lookup (tree fs) q of
             None \<Rightarrow> Inl ENOENT
           | Some (File s) \<Rightarrow> Inl ENOTDIR
           | Some (Dir es) \<Rightarrow>
               if read_only fs then Inl EROFS
               else if q = [] then Inl EBUSY
               else Inr (fs\<lparr>tree := put (tree fs) q None\<rparr>)))"

text \<open>
  \<^verbatim>\<open>os.rename\<close> (\<^verbatim>\<open>Path.rename\<close>): the source must exist; a directory cannot move below
  itself; an existing target is replaced when it is of the same kind and, for a
  directory, empty.
\<close>

definition os_rename :: "filesystem \<Rightarrow> path \<Rightarrow> path \<Rightarrow> errno + filesystem" where
  "os_rename fs src dst =
     (case resolve fs src of
        Inl e \<Rightarrow> Inl e
      | Inr s \<Rightarrow>
          (case resolve fs dst of
             Inl e \<Rightarrow> Inl e
           | Inr d \<Rightarrow>
               (case lookup (tree fs) s of
                  None \<Rightarrow> Inl ENOENT
                | Some n \<Rightarrow>
                    if read_only fs then Inl EROFS
                    else if s = d then Inr fs
                    else if s = [] \<or> d = [] then Inl EBUSY
                    else if take (length s) d = s then Inl EINVAL
                    else
                      (case (n, lookup (tree fs) d) of
                         (Dir es, Some (File t)) \<Rightarrow> Inl ENOTDIR
                       | (File t, Some (Dir es)) \<Rightarrow> Inl EISDIR
                       | (Dir es, Some (Dir (x # xs))) \<Rightarrow> Inl ENOTEMPTY
                       | _ \<Rightarrow> Inr (fs\<lparr>tree := put (put (tree fs) s None) d (Some n)\<rparr>)))))"

subsection \<open>Exceptions, processes and the environment\<close>

text \<open>A Python exception: an \<^verbatim>\<open>OSError\<close> of the file system with its file name, or an
  exception raised by code outside the repository.\<close>

datatype exception = OSError errno string | External string

definition raise_from :: "path \<Rightarrow> errno + 'a \<Rightarrow> exception + 'a" where
  "raise_from p r = (case r of Inl e \<Rightarrow> Inl (OSError e (str_path p)) | Inr x \<Rightarrow> Inr x)"

text \<open>\<^verbatim>\<open>subprocess.CompletedProcess\<close>, with \<^verbatim>\<open>capture_output=True\<close> and \<^verbatim>\<open>text=True\<close>.\<close>

record completed_process =
  returncode :: int
  stdout :: string
  stderr :: string

text \<open>What \<^verbatim>\<open>x509.load_pem_x509_certificate\<close> gives, as far as the console reads it;
  a time is a number of seconds since the epoch.\<close>

record certificate =
  not_valid_before_utc :: int
  not_valid_after_utc :: int
  serial_number :: int

text \<open>
  The environment of the program: the two configuration values read from
  \<^verbatim>\<open>os.environ\<close>, \<^verbatim>\<open>subprocess.run\<close> (the command, the variables set for it, the file
  system it finds; it raises, or returns a completed process and the file system it
  leaves), the certificate parser, \<^verbatim>\<open>strftime("%Y-%m-%d %H:%M")\<close>, the clock,
  \<^verbatim>\<open>str(e)\<close> for an exception, and the decoder of the encoding that \<^verbatim>\<open>open\<close> uses in
  text mode (it raises \<^verbatim>\<open>UnicodeDecodeError\<close>, or returns the text).
\<close>

record env =
  STEP_CA_URL :: string
  STEP_CA_ROOT :: string
  subprocess_run ::
    "string list \<Rightarrow> (string \<times> string) list \<Rightarrow> filesystem
       \<Rightarrow> exception + (completed_process \<times> filesystem)"
  load_pem_x509_certificate :: "string \<Rightarrow> exception + certificate"
  strftime :: "int \<Rightarrow> string"
  now :: int
  str_exception :: "exception \<Rightarrow> string"
  decode :: "string \<Rightarrow> exception + string"

text \<open>Reading in text mode translates the line ends \<^verbatim>\<open>\r\n\<close> and \<^verbatim>\<open>\r\<close> to \<^verbatim>\<open>\n\<close>.\<close>

fun universal_newlines :: "string \<Rightarrow> string" where
  "universal_newlines [] = []"
| "universal_newlines [c] = (if c = CHR 0x0D then [CHR 0x0A] else [c])"
| "universal_newlines (c # d # ds) =
     (if c = CHR 0x0D
      then (if d = CHR 0x0A then CHR 0x0A # universal_newlines ds
            else CHR 0x0A # universal_newlines (d # ds))
      else c # universal_newlines (d # ds))"

text \<open>\<^verbatim>\<open>open(p, "r").read()\<close>: the bytes of the file, decoded, with the line ends
  translated.\<close>

definition read_text :: "env \<Rightarrow> filesystem \<Rightarrow> path \<Rightarrow> exception + string" where
  "read_text ev fs p =
     (case raise_from p (read_file fs p) of
        Inl e \<Rightarrow> Inl e
      | Inr bytes \<Rightarrow>
          (case decode ev bytes of
             Inl e \<Rightarrow> Inl e
           | Inr text \<Rightarrow> Inr (universal_newlines text)))"

text \<open>The state of the world: the file system and the commands run so far, oldest
  first.\<close>

record world =
  fsys :: filesystem
  invoked :: "string list list"

subsection \<open>Configuration\<close>

definition CA_BUNDLE :: path where
  "CA_BUNDLE = parse_path ''/home/step/certs/ca-bundle.crt''"

definition CERTS_DIR :: path where
  "CERTS_DIR = parse_path ''/app/certs''"

definition PROVISIONER_PASSWORD_FILE :: string where
  "PROVISIONER_PASSWORD_FILE = ''/home/step/secrets/password''"

subsection \<open>The functions of the console\<close>

text \<open>\<^verbatim>\<open>run_step_command\<close>: runs \<^verbatim>\<open>step\<close> with the arguments, \<^verbatim>\<open>STEPPATH\<close> set.\<close>

definition run_step_command ::
  "env \<Rightarrow> string list \<Rightarrow> world \<Rightarrow> (exception + completed_process) \<times> world" where
  "run_step_command ev args w =
     (let cmd = [''step''] @ args
      in case subprocess_run ev cmd [(''STEPPATH'', ''/home/step'')] (fsys w) of
           Inl e \<Rightarrow> (Inl e, w\<lparr>invoked := invoked w @ [cmd]\<rparr>)
         | Inr (result, fs) \<Rightarrow> (Inr result, \<lparr>fsys = fs, invoked = invoked w @ [cmd]\<rparr>))"

text \<open>\<^verbatim>\<open>get_ca_health\<close>; the dictionary it returns has the keys \<^verbatim>\<open>status\<close> and
  \<^verbatim>\<open>message\<close>.\<close>

record health =
  status :: string
  message :: string

definition get_ca_health :: "env \<Rightarrow> world \<Rightarrow> health \<times> world" where
  "get_ca_health ev w =
     (case run_step_command ev
             [''ca'', ''health'', ''--ca-url'', STEP_CA_URL ev, ''--root'', STEP_CA_ROOT ev] w of
        (Inr result, w1) \<Rightarrow>
          if returncode result = 0
          then (\<lparr>status = ''healthy'', message = ''CA is running''\<rparr>, w1)
          else (\<lparr>status = ''unhealthy'', message = stderr result\<rparr>, w1)
      | (Inl e, w1) \<Rightarrow> (\<lparr>status = ''error'', message = str_exception ev e\<rparr>, w1))"

text \<open>\<^verbatim>\<open>issue_certificate\<close>. The loop over \<^verbatim>\<open>sans\<close> extends the command.\<close>

fun add_sans :: "string list \<Rightarrow> string list \<Rightarrow> string list" where
  "add_sans cmd [] = cmd"
| "add_sans cmd (san # sans) =
     add_sans (if strip san \<noteq> [] then cmd @ [''--san'', strip san] else cmd) sans"

text \<open>The three \<^verbatim>\<open>open(..., "r").read()\<close> of the \<^verbatim>\<open>try\<close> block; the first that
  raises ends it.\<close>

definition read_generated_files ::
  "env \<Rightarrow> filesystem \<Rightarrow> path \<Rightarrow> path \<Rightarrow> exception + (string \<times> string) list" where
  "read_generated_files ev fs cert_file key_file =
     (case read_text ev fs cert_file of
        Inl e \<Rightarrow> Inl e
      | Inr cert \<Rightarrow>
          (case read_text ev fs key_file of
             Inl e \<Rightarrow> Inl e
           | Inr key \<Rightarrow>
               (case read_text ev fs CA_BUNDLE of
                  Inl e \<Rightarrow> Inl e
                | Inr ca \<Rightarrow> Inr [(''cert'', cert), (''key'', key), (''ca'', ca)])))"

definition issue_certificate ::
  "env \<Rightarrow> string \<Rightarrow> string \<Rightarrow> int \<Rightarrow> string list option \<Rightarrow> world
     \<Rightarrow> (exception + bool \<times> string \<times> (string \<times> string) list) \<times> world" where
  "issue_certificate ev common_name cert_type validity_days sans w =
     (let cert_dir = joinpath CERTS_DIR common_name
      in case raise_from cert_dir (mkdir (fsys w) cert_dir) of
           Inl e \<Rightarrow> (Inl e, w)
         | Inr fs1 \<Rightarrow>
             (let cert_file = joinpath cert_dir (common_name @ ''.crt'');
                  key_file = joinpath cert_dir (common_name @ ''.key'');
                  cmd = [''ca'', ''certificate'',
                         common_name,
                         str_path cert_file,
                         str_path key_file,
                         ''--ca-url'', STEP_CA_URL ev,
                         ''--root'', STEP_CA_ROOT ev,
                         ''--not-after'', str_int (validity_days * 24) @ ''h'',
                         ''--provisioner'', ''iot-devices'',
                         ''--provisioner-password-file'', PROVISIONER_PASSWORD_FILE,
                         ''--force''];
                  cmd = (case sans of None \<Rightarrow> cmd | Some l \<Rightarrow> add_sans cmd l)
              in case run_step_command ev cmd (w\<lparr>fsys := fs1\<rparr>) of
                   (Inl e, w2) \<Rightarrow> (Inl e, w2)
                 | (Inr result, w2) \<Rightarrow>
                     if returncode result = 0 then
                       (case read_generated_files ev (fsys w2) cert_file key_file of
                          Inr files \<Rightarrow> (Inr (True, ''Certificate issued successfully'', files), w2)
                        | Inl e \<Rightarrow>
                            (Inr (False, ''Error reading files: '' @ str_exception ev e, []), w2))
                     else (Inr (False, ''Error: '' @ stderr result, []), w2)))"

text \<open>\<^verbatim>\<open>list_certificates\<close>. One entry of the list it returns, a dictionary
  with the keys \<^verbatim>\<open>cn\<close>, \<^verbatim>\<open>issued\<close>, \<^verbatim>\<open>expires\<close>, \<^verbatim>\<open>serial\<close> and \<^verbatim>\<open>status\<close>:\<close>

record cert_entry =
  e_cn :: string
  e_issued :: string
  e_expires :: string
  e_serial :: string
  e_status :: string

text \<open>The body of the \<^verbatim>\<open>try\<close> block for one certificate file, and its \<^verbatim>\<open>except\<close>.\<close>

definition describe_cert :: "env \<Rightarrow> filesystem \<Rightarrow> path \<Rightarrow> path \<Rightarrow> cert_entry" where
  "describe_cert ev fs cert_dir cert_file =
     (case (case raise_from cert_file (read_file fs cert_file) of
              Inl e \<Rightarrow> Inl e
            | Inr cert_data \<Rightarrow> load_pem_x509_certificate ev cert_data) of
        Inr cert \<Rightarrow>
          \<lparr>e_cn = name cert_dir,
           e_issued = strftime ev (not_valid_before_utc cert),
           e_expires = strftime ev (not_valid_after_utc cert),
           e_serial = str_int (serial_number cert),
           e_status = (if not_valid_after_utc cert > now ev then ''Active'' else ''Expired'')\<rparr>
      | Inl e \<Rightarrow>
          \<lparr>e_cn = name cert_dir,
           e_issued = ''Unknown'',
           e_expires = ''Unknown'',
           e_serial = ''Unknown'',
           e_status = ''Error: '' @ str_exception ev e\<rparr>)"

text \<open>The \<^verbatim>\<open>for\<close> loop over the entries of \<^verbatim>\<open>CERTS_DIR\<close>; \<^verbatim>\<open>is_dir()\<close> and
  \<^verbatim>\<open>exists()\<close> are outside the \<^verbatim>\<open>try\<close>, so what they raise ends the loop.\<close>

fun collect_certs ::
  "env \<Rightarrow> filesystem \<Rightarrow> string list \<Rightarrow> cert_entry list \<Rightarrow> exception + cert_entry list" where
  "collect_certs ev fs [] certs = Inr certs"
| "collect_certs ev fs (entry # entries) certs =
     (let cert_dir = child CERTS_DIR entry
      in case raise_from cert_dir (is_dir fs cert_dir) of
           Inl e \<Rightarrow> Inl e
         | Inr d \<Rightarrow>
             if d then
               (let cert_file = joinpath cert_dir (name cert_dir @ ''.crt'')
                in case raise_from cert_file (exists fs cert_file) of
                     Inl e \<Rightarrow> Inl e
                   | Inr there \<Rightarrow>
                       if there
                       then collect_certs ev fs entries
                              (certs @ [describe_cert ev fs cert_dir cert_file])
                       else collect_certs ev fs entries certs)
             else collect_certs ev fs entries certs)"

definition list_certificates :: "env \<Rightarrow> world \<Rightarrow> (exception + cert_entry list) \<times> world" where
  "list_certificates ev w =
     (case raise_from CERTS_DIR (listdir (fsys w) CERTS_DIR) of
        Inl e \<Rightarrow> (Inl e, w)
      | Inr entries \<Rightarrow>
          (case collect_certs ev (fsys w) entries [] of
             Inl e \<Rightarrow> (Inl e, w)
           | Inr certs \<Rightarrow> (Inr (sort_key e_cn certs), w)))"

text \<open>\<^verbatim>\<open>revoke_certificate\<close>. First the block that marks the revocation on disk: a
  \<^verbatim>\<open>.revoked\<close> directory left from before is removed, then the directory is renamed;
  an exception of the rename is caught and dropped, one of \<^verbatim>\<open>exists()\<close> or of
  \<^verbatim>\<open>rmtree\<close> is not.\<close>

definition mark_revoked :: "string \<Rightarrow> filesystem \<Rightarrow> exception + filesystem" where
  "mark_revoked common_name fs =
     (let revoked_dir = joinpath CERTS_DIR (common_name @ ''.revoked'')
      in case raise_from revoked_dir (exists fs revoked_dir) of
           Inl e \<Rightarrow> Inl e
         | Inr there \<Rightarrow>
             (case (if there then raise_from revoked_dir (rmtree fs revoked_dir) else Inr fs) of
                Inl e \<Rightarrow> Inl e
              | Inr fs1 \<Rightarrow>
                  (case os_rename fs1 (joinpath CERTS_DIR common_name) revoked_dir of
                     Inr fs2 \<Rightarrow> Inr fs2
                   | Inl e \<Rightarrow> Inr fs1)))"

text \<open>The two argument lists it builds.\<close>

definition token_cmd :: "env \<Rightarrow> string \<Rightarrow> string list" where
  "token_cmd ev serial =
     [''ca'', ''token'',
      serial,
      ''--revoke'',
      ''--ca-url'', STEP_CA_URL ev,
      ''--root'', STEP_CA_ROOT ev,
      ''--provisioner'', ''iot-devices'',
      ''--provisioner-password-file'', PROVISIONER_PASSWORD_FILE]"

definition revoke_cmd :: "env \<Rightarrow> string \<Rightarrow> string \<Rightarrow> string list" where
  "revoke_cmd ev serial token =
     [''ca'', ''revoke'',
      serial,
      ''--ca-url'', STEP_CA_URL ev,
      ''--root'', STEP_CA_ROOT ev,
      ''--token'', token]"

definition revoke_certificate ::
  "env \<Rightarrow> string \<Rightarrow> string \<Rightarrow> world \<Rightarrow> (exception + bool \<times> string) \<times> world" where
  "revoke_certificate ev common_name serial w =
     (let cert_file = joinpath (joinpath CERTS_DIR common_name) (common_name @ ''.crt'')
      in case raise_from cert_file (exists (fsys w) cert_file) of
           Inl e \<Rightarrow> (Inl e, w)
         | Inr there \<Rightarrow>
         if \<not> there then (Inr (False, ''Certificate file not found''), w)
         else
           (case run_step_command ev (token_cmd ev serial) w of
              (Inl e, w1) \<Rightarrow> (Inl e, w1)
            | (Inr token_result, w1) \<Rightarrow>
                if returncode token_result \<noteq> 0
                then (Inr (False, ''Failed to generate revocation token: ''
                                    @ stderr token_result), w1)
                else
                  (let token = strip (stdout token_result)
                   in case run_step_command ev (revoke_cmd ev serial token) w1 of
                        (Inl e, w2) \<Rightarrow> (Inl e, w2)
                      | (Inr result, w2) \<Rightarrow>
                          (let already_revoked =
                                 str_in ''already revoked'' (lower (stderr result))
                           in if returncode result = 0 \<or> already_revoked then
                                (case mark_revoked common_name (fsys w2) of
                                   Inl e \<Rightarrow> (Inl e, w2)
                                 | Inr fs3 \<Rightarrow>
                                     if already_revoked
                                     then (Inr (True, ''Certificate was already revoked. Cleaned up local files.''),
                                           w2\<lparr>fsys := fs3\<rparr>)
                                     else (Inr (True, ''Certificate revoked successfully''),
                                           w2\<lparr>fsys := fs3\<rparr>))
                              else (Inr (False, ''Error: '' @ stderr result), w2)))))"

subsection \<open>Names, tracking states and sequences of operations\<close>

text \<open>A common name that is one path component: not empty, no slash, neither \<^verbatim>\<open>.\<close>
  nor \<^verbatim>\<open>..\<close>. The form of the console accepts only such names.\<close>

definition valid_name :: "string \<Rightarrow> bool" where
  "valid_name s = (s \<noteq> [] \<and> s \<noteq> ''.'' \<and> s \<noteq> ''..'' \<and> CHR ''/'' \<notin> set s)"





text \<open>A sequence of operations of the console: each runs in the world the one before
  left, whether it returned or raised.\<close>

datatype operation =
  Issue string string int "string list option"
| Revoke string string


fun perform :: "env \<Rightarrow> operation \<Rightarrow> world \<Rightarrow> world" where
  "perform ev (Issue common_name cert_type validity_days sans) w =
     snd (issue_certificate ev common_name cert_type validity_days sans w)"
| "perform ev (Revoke common_name serial) w =
     snd (revoke_certificate ev common_name serial w)"

fun run_ops :: "env \<Rightarrow> operation list \<Rightarrow> world \<Rightarrow> world" where
  "run_ops ev [] w = w"
| "run_ops ev (x # xs) w = run_ops ev xs (perform ev x w)"


text \<open>What is at a path of the tree: nothing, a regular file with its content, or a
  directory.\<close>

datatype kind = Absent | Regular string | Directory

definition kind_at :: "node \<Rightarrow> string list \<Rightarrow> kind" where
  "kind_at t r =
     (case lookup t r of
        None \<Rightarrow> Absent
      | Some (File s) \<Rightarrow> Regular s
      | Some (Dir es) \<Rightarrow> Directory)"

text \<open>The two calls of the tool that a revocation makes leave the file system as they
  found it (when they return).\<close>

definition revocation_leaves_files :: "env \<Rightarrow> string \<Rightarrow> filesystem \<Rightarrow> bool" where
  "revocation_leaves_files ev serial fs =
     (case subprocess_run ev (''step'' # token_cmd ev serial) [(''STEPPATH'', ''/home/step'')] fs of
        Inl e \<Rightarrow> True
      | Inr (token_result, fs1) \<Rightarrow>
          fs1 = fs \<and>
          (case subprocess_run ev
                  (''step'' # revoke_cmd ev serial (strip (stdout token_result)))
                  [(''STEPPATH'', ''/home/step'')] fs1 of
             Inl e \<Rightarrow> True
           | Inr (result, fs2) \<Rightarrow> fs2 = fs))"

subsection \<open>An example environment\<close>

text \<open>
  An example of the \<^verbatim>\<open>step\<close> tool for the worked examples: \<^verbatim>\<open>step ca certificate\<close>
  writes the two files it is given and exits with 1 when it cannot,
  \<^verbatim>\<open>step ca token\<close> and \<^verbatim>\<open>step ca revoke\<close> answer with the two given results, and
  every other command reports that the CA cannot be reached.
\<close>

definition example_step ::
  "completed_process \<Rightarrow> completed_process \<Rightarrow> string list \<Rightarrow> (string \<times> string) list
     \<Rightarrow> filesystem \<Rightarrow> exception + (completed_process \<times> filesystem)" where
  "example_step token_result revoke_result cmd vars fs =
     (case cmd of
        s # c # sub # subj # crt # key # rest \<Rightarrow>
          if sub = ''certificate'' then
            (case write_file fs (parse_path crt) ''CERT'' of
               Inl e \<Rightarrow> Inr (\<lparr>returncode = 1, stdout = [], stderr = ''cannot write''\<rparr>, fs)
             | Inr fs1 \<Rightarrow>
                 (case write_file fs1 (parse_path key) ''KEY'' of
                    Inl e \<Rightarrow> Inr (\<lparr>returncode = 1, stdout = [], stderr = ''cannot write''\<rparr>, fs1)
                  | Inr fs2 \<Rightarrow> Inr (\<lparr>returncode = 0, stdout = [], stderr = []\<rparr>, fs2)))
          else if sub = ''token'' then Inr (token_result, fs)
          else if sub = ''revoke'' then Inr (revoke_result, fs)
          else Inr (\<lparr>returncode = 1, stdout = [], stderr = ''connection refused''\<rparr>, fs)
      | _ \<Rightarrow> Inl (External ''usage''))"

definition example_env :: "completed_process \<Rightarrow> completed_process \<Rightarrow> env" where
  "example_env token_result revoke_result =
     \<lparr>STEP_CA_URL = ''https://step-ca:9000'',
      STEP_CA_ROOT = ''/home/step/certs/root_ca.crt'',
      subprocess_run = example_step token_result revoke_result,
      load_pem_x509_certificate =
        (\<lambda>s. if s = ''CERT''
             then Inr \<lparr>not_valid_before_utc = 100, not_valid_after_utc = 200, serial_number = 77\<rparr>
             else Inl (External ''bad pem'')),
      strftime = str_int,
      now = 150,
      str_exception = (\<lambda>e. case e of OSError n f \<Rightarrow> f | External s \<Rightarrow> s),
      decode = Inr\<rparr>"

definition done_ok :: "string \<Rightarrow> completed_process" where
  "done_ok out = \<lparr>returncode = 0, stdout = out, stderr = []\<rparr>"

definition failed :: "string \<Rightarrow> completed_process" where
  "failed err = \<lparr>returncode = 1, stdout = [], stderr = err\<rparr>"

text \<open>A file system with the CA bundle in place and the given entries in
  \<^verbatim>\<open>/app/certs\<close>; the directory of an issued certificate \<^verbatim>\<open>dev1\<close>.\<close>

definition example_fs :: "(string \<times> node) list \<Rightarrow> bool \<Rightarrow> filesystem" where
  "example_fs certs ro =
     \<lparr>tree = Dir [(''app'', Dir [(''certs'', Dir certs)]),
                  (''home'', Dir [(''step'', Dir [(''certs'',
                     Dir [(''ca-bundle.crt'', File ''CA'')])])])],
      read_only = ro\<rparr>"

definition dev1_dir :: node where
  "dev1_dir = Dir [(''dev1.crt'', File ''CERT''), (''dev1.key'', File ''KEY'')]"

text \<open>A file system whose CA bundle has the line ends \<^verbatim>\<open>\r\n\<close> and \<^verbatim>\<open>\r\<close>.\<close>

definition crlf_fs :: filesystem where
  "crlf_fs =
     \<lparr>tree = Dir [(''app'', Dir [(''certs'', Dir [])]),
                  (''home'', Dir [(''step'', Dir [(''certs'',
                     Dir [(''ca-bundle.crt'',
                           File (''CA'' @ [CHR 0x0D, CHR 0x0A] @ ''chain'' @ [CHR 0x0D]))])])])],
      read_only = False\<rparr>"

text \<open>A common name of 250 letters: with \<^verbatim>\<open>.crt\<close> it is a file name the system
  takes, with \<^verbatim>\<open>.revoked\<close> it is not.\<close>

definition long_name :: string where
  "long_name = replicate 250 CHR ''a''"

section \<open>Paths of single-component names\<close>

lemma split_no_sep: "sep \<notin> set s \<Longrightarrow> split sep s = [s]"
  by (induction s) auto

lemma components_single:
  "CHR ''/'' \<notin> set s \<Longrightarrow> s \<noteq> [] \<Longrightarrow> s \<noteq> ''.'' \<Longrightarrow> components s = [s]"
  by (simp add: components_def split_no_sep)

lemma CERTS_DIR_eq: "CERTS_DIR = Path ''/'' [''app'', ''certs'']"
  by (simp add: CERTS_DIR_def parse_path_def splitroot_def components_def)

lemma joinpath_plain:
  assumes "CHR ''/'' \<notin> set s" "s \<noteq> []" "s \<noteq> ''.''"
  shows "joinpath p s = Path (anchor p) (parts p @ [s])"
proof -
  from assms have "\<not> startswith s ''/''"
    by (cases s) auto
  with assms show ?thesis
    by (simp add: joinpath_def components_single)
qed

lemma cert_dir_eq:
  "valid_name cn \<Longrightarrow> joinpath CERTS_DIR cn = Path ''/'' [''app'', ''certs'', cn]"
  by (simp add: valid_name_def joinpath_plain CERTS_DIR_eq)

lemma suffixed_dir_eq:
  "valid_name cn \<Longrightarrow> CHR ''/'' \<notin> set sfx \<Longrightarrow> sfx \<noteq> [] \<Longrightarrow>
     joinpath CERTS_DIR (cn @ sfx) = Path ''/'' [''app'', ''certs'', cn @ sfx]"
  apply (subst joinpath_plain)
     apply (auto simp: valid_name_def CERTS_DIR_eq append_eq_Cons_conv)
  done

lemma cert_file_eq:
  "valid_name cn \<Longrightarrow> CHR ''/'' \<notin> set sfx \<Longrightarrow> sfx \<noteq> [] \<Longrightarrow>
     joinpath (joinpath CERTS_DIR cn) (cn @ sfx) = Path ''/'' [''app'', ''certs'', cn, cn @ sfx]"
  apply (simp add: cert_dir_eq)
  apply (subst joinpath_plain)
     apply (auto simp: valid_name_def append_eq_Cons_conv)
  done

lemma valid_name_suffixed:
  "valid_name cn \<Longrightarrow> CHR ''/'' \<notin> set sfx \<Longrightarrow> sfx \<noteq> [] \<Longrightarrow> sfx \<noteq> ''.'' \<Longrightarrow>
     valid_name (cn @ sfx)"
  by (auto simp: valid_name_def append_eq_Cons_conv Cons_eq_append_conv)

lemma utf8_len_append: "utf8_len (a @ b) = utf8_len a + utf8_len b"
  by (simp add: utf8_len_def)

lemma utf8_len_certs_path:
  "utf8_len (str_path (Path ''/'' [''app'', ''certs'', x])) = 11 + utf8_len x"
  by (simp add: str_path_def utf8_len_def)

section \<open>Lookup, update and path resolution in the tree\<close>

lemma lookup_append:
  "lookup t (p @ q) = (case lookup t p of None \<Rightarrow> None | Some m \<Rightarrow> lookup m q)"
  by (induction t p rule: lookup.induct) (auto split: option.splits)

lemma lookup_Cons_Some:
  "lookup t (c # cs) = Some n \<Longrightarrow> \<exists>es. t = Dir es"
  by (cases t) auto

lemma lookup_parent_dir:
  "lookup t (p @ [a]) = Some n \<Longrightarrow> \<exists>es. lookup t p = Some (Dir es)"
  by (auto simp: lookup_append split: option.splits dest: lookup_Cons_Some)

lemma lookup_entry:
  "(lookup t (p @ [x]) = Some n) = (\<exists>es. lookup t p = Some (Dir es) \<and> map_of es x = Some n)"
proof (cases "lookup t p")
  case None
  then show ?thesis by (simp add: lookup_append)
next
  case (Some m)
  then show ?thesis
    by (cases m) (auto simp: lookup_append split: option.splits)
qed

lemma walk_plain:
  "''..'' \<notin> set cs \<Longrightarrow> \<forall>c\<in>set cs. utf8_len c \<le> NAME_MAX \<Longrightarrow>
     lookup t (cur @ cs) = Some n \<Longrightarrow> walk t cur cs = Inr (cur @ cs)"
proof (induction cs arbitrary: cur)
  case Nil
  then show ?case by simp
next
  case (Cons c cs)
  from Cons.prems(1) have c: "c \<noteq> ''..''" and cs: "''..'' \<notin> set cs" by auto
  from Cons.prems(2) have s: "\<not> NAME_MAX < utf8_len c" and ss: "\<forall>c\<in>set cs. utf8_len c \<le> NAME_MAX"
    by auto
  from Cons.prems(3) obtain m where m: "lookup t cur = Some m" "lookup m (c # cs) = Some n"
    by (auto simp: lookup_append split: option.splits)
  then obtain es where es: "m = Dir es" by (auto dest: lookup_Cons_Some)
  have "walk t (cur @ [c]) cs = Inr ((cur @ [c]) @ cs)"
    using Cons.IH [OF cs ss, of "cur @ [c]"] Cons.prems(3) by simp
  with m es c s show ?case by simp
qed

lemma walk_plain_result:
  "''..'' \<notin> set cs \<Longrightarrow> walk t cur cs = Inr q \<Longrightarrow> q = cur @ cs"
proof (induction cs arbitrary: cur)
  case Nil
  then show ?case by simp
next
  case (Cons c cs)
  from Cons.prems(1) have c: "c \<noteq> ''..''" and cs: "''..'' \<notin> set cs" by auto
  from Cons.prems(2) c have "walk t (cur @ [c]) cs = Inr q"
    by (auto split: option.splits node.splits if_splits)
  from Cons.IH [OF cs this] show ?case by simp
qed

lemma walk_short:
  "walk t cur cs = Inr q \<Longrightarrow> \<forall>c\<in>set cs. utf8_len c \<le> NAME_MAX"
proof (induction cs arbitrary: cur)
  case Nil
  then show ?case by simp
next
  case (Cons c cs)
  from Cons.prems have s: "utf8_len c \<le> NAME_MAX"
    and w: "walk t (if c = ''..'' then butlast cur else cur @ [c]) cs = Inr q"
    by (auto split: option.splits node.splits if_splits)
  from Cons.IH [OF w] s show ?case by simp
qed

lemma walk_append:
  "walk t cur (cs @ ds) = (case walk t cur cs of Inl e \<Rightarrow> Inl e | Inr q \<Rightarrow> walk t q ds)"
  by (induction cs arbitrary: cur) (auto split: option.splits node.splits)

lemma walk_parent:
  assumes "''..'' \<notin> set cs" "c \<noteq> ''..''" "walk t cur (cs @ [c]) = Inr q"
  shows "\<exists>es. lookup t (cur @ cs) = Some (Dir es)"
proof -
  from assms(3) obtain q' where q': "walk t cur cs = Inr q'" and l: "walk t q' [c] = Inr q"
    by (auto simp: walk_append split: sum.splits)
  from walk_plain_result [OF assms(1) q'] have "q' = cur @ cs" .
  with l show ?thesis by (auto split: option.splits node.splits if_splits)
qed

lemma resolve_plain:
  "''..'' \<notin> set (parts p) \<Longrightarrow> resolve fs p = Inr q \<Longrightarrow> q = parts p"
  using walk_plain_result [of "parts p" "tree fs" "[]" q]
  by (simp add: resolve_def split: if_splits)

text \<open>What \<^verbatim>\<open>stat\<close> says of a path without \<^verbatim>\<open>'..'\<close>.\<close>

lemma stat_plain_Inr:
  assumes "''..'' \<notin> set (parts p)" "stat fs p = Inr n"
  shows "lookup (tree fs) (parts p) = Some n
         \<and> (\<forall>c\<in>set (parts p). utf8_len c \<le> NAME_MAX)
         \<and> utf8_len (str_path p) < PATH_MAX"
proof -
  from assms(2) obtain q where q: "resolve fs p = Inr q" "lookup (tree fs) q = Some n"
    by (auto simp: stat_def split: sum.splits option.splits)
  with assms have "q = parts p" by (simp add: resolve_plain)
  moreover from q(1) have "walk (tree fs) [] (parts p) = Inr q" "utf8_len (str_path p) < PATH_MAX"
    by (auto simp: resolve_def split: if_splits)
  ultimately show ?thesis using q(2) walk_short [of "tree fs" "[]" "parts p" q] by simp
qed

lemma stat_plain_intro:
  assumes "''..'' \<notin> set (parts p)" "\<forall>c\<in>set (parts p). utf8_len c \<le> NAME_MAX"
    and "utf8_len (str_path p) < PATH_MAX" "lookup (tree fs) (parts p) = Some n"
  shows "stat fs p = Inr n"
proof -
  from assms have "resolve fs p = Inr (parts p)"
    using walk_plain [of "parts p" "tree fs" "[]" n] by (simp add: resolve_def)
  with assms(4) show ?thesis by (simp add: stat_def)
qed

text \<open>Paths directly below \<^verbatim>\<open>CERTS_DIR\<close>, when that is a directory.\<close>

lemma resolve_in_certs:
  assumes "x \<noteq> ''..''" "lookup (tree fs) [''app'', ''certs''] = Some (Dir es)"
  shows "resolve fs (Path ''/'' [''app'', ''certs'', x]) =
           (if NAME_MAX < utf8_len x then Inl ENAMETOOLONG else Inr [''app'', ''certs'', x])"
proof -
  have w: "walk (tree fs) [] [''app'', ''certs''] = Inr [''app'', ''certs'']"
    using walk_plain [of "[''app'', ''certs'']" "tree fs" "[]" "Dir es"] assms(2)
    by (simp add: utf8_len_def NAME_MAX_def)
  have "walk (tree fs) [] ([''app'', ''certs''] @ [x]) =
          (if NAME_MAX < utf8_len x then Inl ENAMETOOLONG else Inr [''app'', ''certs'', x])"
    unfolding walk_append w using assms by simp
  then show ?thesis
    by (auto simp: resolve_def utf8_len_certs_path PATH_MAX_def NAME_MAX_def)
qed

lemma stat_in_certs:
  assumes "x \<noteq> ''..''" "lookup (tree fs) [''app'', ''certs''] = Some (Dir es)"
  shows "stat fs (Path ''/'' [''app'', ''certs'', x]) =
           (if NAME_MAX < utf8_len x then Inl ENAMETOOLONG
            else case lookup (tree fs) [''app'', ''certs'', x] of
                   None \<Rightarrow> Inl ENOENT | Some n \<Rightarrow> Inr n)"
  by (simp add: stat_def resolve_in_certs [OF assms])

lemma exists_in_certs:
  assumes "x \<noteq> ''..''" "lookup (tree fs) [''app'', ''certs''] = Some (Dir es)"
  shows "exists fs (Path ''/'' [''app'', ''certs'', x]) =
           (if NAME_MAX < utf8_len x then Inl ENAMETOOLONG
            else Inr (lookup (tree fs) [''app'', ''certs'', x] \<noteq> None))"
  by (simp add: exists_def stat_in_certs [OF assms] ignore_error_def split: option.splits)

lemma put_Cons_Dir:
  "cs \<noteq> [] \<Longrightarrow> put (Dir es) (c # cs) v =
     (case map_of es c of None \<Rightarrow> Dir es | Some m \<Rightarrow> Dir (AList.update c (put m cs v) es))"
  by (cases cs) (simp_all split: option.splits)

lemma lookup_put_same:
  "lookup t p = Some (Dir es) \<Longrightarrow> lookup (put t (p @ [a]) v) (p @ [a]) = v"
proof (induction p arbitrary: t)
  case Nil
  then show ?case
    by (cases v) (simp_all add: update_conv' delete_conv')
next
  case (Cons c p)
  from Cons.prems obtain ds where t: "t = Dir ds" by (auto dest: lookup_Cons_Some)
  with Cons.prems obtain m where m: "map_of ds c = Some m" "lookup m p = Some (Dir es)"
    by (auto split: option.splits)
  from Cons.IH [OF m(2)] t m(1) show ?case
    by (simp add: put_Cons_Dir update_conv')
qed

lemma lookup_put_sibling:
  "a \<noteq> b \<Longrightarrow> lookup (put t (p @ [a]) v) (p @ b # q) = lookup t (p @ b # q)"
proof (induction p arbitrary: t)
  case Nil
  then show ?case
    by (cases t; cases v) (simp_all add: update_conv' delete_conv')
next
  case (Cons c p)
  show ?case
  proof (cases t)
    case (File s)
    then show ?thesis by simp
  next
    case (Dir ds)
    with Cons show ?thesis
      by (cases "map_of ds c") (simp_all add: put_Cons_Dir update_conv')
  qed
qed

lemma lookup_put_parent:
  "lookup t p = Some (Dir es) \<Longrightarrow> \<exists>es'. lookup (put t (p @ [a]) v) p = Some (Dir es')"
proof (induction p arbitrary: t)
  case Nil
  then show ?case by (cases v) simp_all
next
  case (Cons c p)
  from Cons.prems obtain ds where t: "t = Dir ds" by (auto dest: lookup_Cons_Some)
  with Cons.prems obtain m where m: "map_of ds c = Some m" "lookup m p = Some (Dir es)"
    by (auto split: option.splits)
  from Cons.IH [OF m(2)] t m(1) show ?case
    by (simp add: put_Cons_Dir update_conv')
qed

section \<open>Renaming and removing a directory next to another\<close>

lemma rename_sibling:
  assumes plain: "''..'' \<notin> set p" "a \<noteq> ''..''" "b \<noteq> ''..''" and ab: "a \<noteq> b"
    and ren: "os_rename fs (Path r (p @ [a])) (Path r' (p @ [b])) = Inr fs'"
  shows "lookup (tree fs') (p @ [b]) = lookup (tree fs) (p @ [a])
         \<and> lookup (tree fs) (p @ [a]) \<noteq> None
         \<and> lookup (tree fs') (p @ [a]) = None
         \<and> (\<forall>c q. c \<noteq> a \<longrightarrow> c \<noteq> b \<longrightarrow>
               lookup (tree fs') (p @ c # q) = lookup (tree fs) (p @ c # q))
         \<and> read_only fs' = read_only fs"
proof -
  from ren obtain s d where s: "resolve fs (Path r (p @ [a])) = Inr s"
    and d: "resolve fs (Path r' (p @ [b])) = Inr d"
    by (auto simp: os_rename_def split: sum.splits)
  from plain s have s': "s = p @ [a]" using resolve_plain [of "Path r (p @ [a])" fs s] by simp
  from plain d have d': "d = p @ [b]" using resolve_plain [of "Path r' (p @ [b])" fs d] by simp
  from ren s d s' d' obtain n where n: "lookup (tree fs) (p @ [a]) = Some n"
    by (auto simp: os_rename_def split: option.splits)
  from ren s d s' d' n ab
  have fs': "fs' = fs\<lparr>tree := put (put (tree fs) (p @ [a]) None) (p @ [b]) (Some n)\<rparr>"
    by (auto simp: os_rename_def split: if_splits node.splits option.splits list.splits)
  from n obtain es where es: "lookup (tree fs) p = Some (Dir es)"
    by (auto dest: lookup_parent_dir)
  from lookup_put_parent [OF es, of a None] obtain es'
    where es': "lookup (put (tree fs) (p @ [a]) None) p = Some (Dir es')" by auto
  have 1: "lookup (tree fs') (p @ [b]) = Some n"
    using lookup_put_same [OF es'] fs' by simp
  have "lookup (tree fs') (p @ [a]) = lookup (put (tree fs) (p @ [a]) None) (p @ [a])"
    using lookup_put_sibling [of b a _ p _ "[]"] ab fs' by simp
  also have "\<dots> = None" using lookup_put_same [OF es] by simp
  finally have 2: "lookup (tree fs') (p @ [a]) = None" .
  have 3: "lookup (tree fs') (p @ c # q) = lookup (tree fs) (p @ c # q)"
    if "c \<noteq> a" "c \<noteq> b" for c q
    using that fs' lookup_put_sibling [of b c _ p _ q] lookup_put_sibling [of a c _ p _ q]
    by simp
  from 1 2 3 n fs' show ?thesis by simp
qed

lemma rmtree_sibling:
  assumes plain: "''..'' \<notin> set p" "b \<noteq> ''..''"
    and rm: "rmtree fs (Path r (p @ [b])) = Inr fs'"
  shows "lookup (tree fs') (p @ [b]) = None
         \<and> (\<forall>a q. a \<noteq> b \<longrightarrow> lookup (tree fs') (p @ a # q) = lookup (tree fs) (p @ a # q))
         \<and> read_only fs' = read_only fs"
proof -
  from rm obtain d where d: "resolve fs (Path r (p @ [b])) = Inr d"
    by (auto simp: rmtree_def split: sum.splits)
  from plain d have d': "d = p @ [b]" using resolve_plain [of "Path r (p @ [b])" fs d] by simp
  from rm d d' obtain ds where ds: "lookup (tree fs) (p @ [b]) = Some (Dir ds)"
    and fs': "fs' = fs\<lparr>tree := put (tree fs) (p @ [b]) None\<rparr>"
    by (auto simp: rmtree_def split: option.splits node.splits if_splits)
  from ds obtain es where es: "lookup (tree fs) p = Some (Dir es)"
    by (auto dest: lookup_parent_dir)
  from fs' lookup_put_same [OF es, of b None] lookup_put_sibling [of b _ "tree fs" p None]
  show ?thesis by simp
qed

lemma os_rename_read_only: "read_only fs \<Longrightarrow> os_rename fs src dst \<noteq> Inr fs'"
  by (auto simp: os_rename_def split: sum.splits option.splits)

lemma rmtree_read_only: "read_only fs \<Longrightarrow> rmtree fs p \<noteq> Inr fs'"
  by (auto simp: rmtree_def split: sum.splits option.splits node.splits)

section \<open>The block that marks a revocation on disk\<close>

lemma certs_is_dir:
  "lookup t [''app'', ''certs'', x] = Some n \<Longrightarrow> \<exists>es. lookup t [''app'', ''certs''] = Some (Dir es)"
  using lookup_parent_dir [of t "[''app'', ''certs'']" x n] by simp

lemma rename_cert_dir:
  assumes "valid_name cn"
    and "os_rename fs (Path ''/'' [''app'', ''certs'', cn])
           (Path ''/'' [''app'', ''certs'', cn @ ''.revoked'']) = Inr fs'"
  shows "lookup (tree fs') [''app'', ''certs'', cn @ ''.revoked'']
           = lookup (tree fs) [''app'', ''certs'', cn]
         \<and> lookup (tree fs) [''app'', ''certs'', cn] \<noteq> None
         \<and> lookup (tree fs') [''app'', ''certs'', cn] = None
         \<and> (\<forall>c q. c \<noteq> cn \<longrightarrow> c \<noteq> cn @ ''.revoked'' \<longrightarrow>
               lookup (tree fs') ([''app'', ''certs''] @ c # q)
                 = lookup (tree fs) ([''app'', ''certs''] @ c # q))
         \<and> read_only fs' = read_only fs"
  using rename_sibling [of "[''app'', ''certs'']" cn "cn @ ''.revoked''" fs "''/''" "''/''" fs'] assms
  by (simp add: valid_name_def)

lemma rename_cert_dir_ok:
  assumes v: "valid_name cn" and w: "\<not> read_only fs"
    and short: "utf8_len (cn @ ''.revoked'') \<le> NAME_MAX"
    and src: "lookup (tree fs) [''app'', ''certs'', cn] = Some n"
    and dst: "lookup (tree fs) [''app'', ''certs'', cn @ ''.revoked''] = None"
  shows "\<exists>fs'. os_rename fs (Path ''/'' [''app'', ''certs'', cn])
                 (Path ''/'' [''app'', ''certs'', cn @ ''.revoked'']) = Inr fs'"
proof -
  from certs_is_dir [OF src] obtain es
    where es: "lookup (tree fs) [''app'', ''certs''] = Some (Dir es)" by auto
  from v have ne: "cn \<noteq> ''..''" "cn @ ''.revoked'' \<noteq> ''..''" by (auto simp: valid_name_def)
  from short have short': "utf8_len cn \<le> NAME_MAX" by (simp add: utf8_len_append)
  have s: "resolve fs (Path ''/'' [''app'', ''certs'', cn]) = Inr [''app'', ''certs'', cn]"
    using resolve_in_certs [OF ne(1) es] short' by simp
  have d: "resolve fs (Path ''/'' [''app'', ''certs'', cn @ ''.revoked''])
             = Inr [''app'', ''certs'', cn @ ''.revoked'']"
    using resolve_in_certs [OF ne(2) es] short by simp
  from s d src dst w show ?thesis
    by (cases n) (simp_all add: os_rename_def)
qed

lemma rmtree_revoked_dir:
  assumes "valid_name cn"
    and "rmtree fs (Path ''/'' [''app'', ''certs'', cn @ ''.revoked'']) = Inr fs'"
  shows "lookup (tree fs') [''app'', ''certs'', cn @ ''.revoked''] = None
         \<and> (\<forall>a q. a \<noteq> cn @ ''.revoked'' \<longrightarrow>
               lookup (tree fs') ([''app'', ''certs''] @ a # q)
                 = lookup (tree fs) ([''app'', ''certs''] @ a # q))
         \<and> read_only fs' = read_only fs"
  using rmtree_sibling [of "[''app'', ''certs'']" "cn @ ''.revoked''" fs "''/''" fs'] assms
  by (simp add: valid_name_def)

text \<open>The block, for a single-component name, with its paths written out.\<close>

lemma mark_revoked_valid:
  assumes "valid_name cn"
  shows "mark_revoked cn fs =
     (case raise_from (Path ''/'' [''app'', ''certs'', cn @ ''.revoked''])
             (exists fs (Path ''/'' [''app'', ''certs'', cn @ ''.revoked''])) of
        Inl e \<Rightarrow> Inl e
      | Inr there \<Rightarrow>
          (case (if there
                 then raise_from (Path ''/'' [''app'', ''certs'', cn @ ''.revoked''])
                        (rmtree fs (Path ''/'' [''app'', ''certs'', cn @ ''.revoked'']))
                 else Inr fs) of
             Inl e \<Rightarrow> Inl e
           | Inr fs1 \<Rightarrow>
               (case os_rename fs1 (Path ''/'' [''app'', ''certs'', cn])
                       (Path ''/'' [''app'', ''certs'', cn @ ''.revoked'']) of
                  Inr fs2 \<Rightarrow> Inr fs2
                | Inl e \<Rightarrow> Inr fs1)))"
  using assms
  by (simp add: mark_revoked_def Let_def cert_dir_eq suffixed_dir_eq cong: sum.case_cong)

text \<open>The parts of the block: what was decided, what the removal left, what the rename
  did.\<close>

lemma mark_revoked_parts:
  assumes v: "valid_name cn" and m: "mark_revoked cn fs = Inr fs'"
  obtains there fs1 where
    "exists fs (Path ''/'' [''app'', ''certs'', cn @ ''.revoked'']) = Inr there"
    "if there then rmtree fs (Path ''/'' [''app'', ''certs'', cn @ ''.revoked'']) = Inr fs1
     else fs1 = fs"
    "case os_rename fs1 (Path ''/'' [''app'', ''certs'', cn])
            (Path ''/'' [''app'', ''certs'', cn @ ''.revoked'']) of
       Inr fs2 \<Rightarrow> fs' = fs2 | Inl e \<Rightarrow> fs' = fs1"
  using m unfolding mark_revoked_valid [OF v]
  by (auto simp: raise_from_def split: sum.splits if_splits)


text \<open>The first half of the block: a \<^verbatim>\<open>.revoked\<close> directory left from before is gone
  afterwards, and the directory of the certificate is untouched.\<close>

lemma clear_revoked_dir:
  assumes v: "valid_name cn"
    and es: "lookup (tree fs) [''app'', ''certs''] = Some (Dir es)"
    and e: "exists fs (Path ''/'' [''app'', ''certs'', cn @ ''.revoked'']) = Inr there"
    and c: "if there then rmtree fs (Path ''/'' [''app'', ''certs'', cn @ ''.revoked'']) = Inr fs1
            else fs1 = fs"
  shows "lookup (tree fs1) [''app'', ''certs'', cn @ ''.revoked''] = None
         \<and> lookup (tree fs1) [''app'', ''certs'', cn] = lookup (tree fs) [''app'', ''certs'', cn]
         \<and> read_only fs1 = read_only fs
         \<and> utf8_len (cn @ ''.revoked'') \<le> NAME_MAX"
proof -
  from v have ne: "cn @ ''.revoked'' \<noteq> ''..''" "cn \<noteq> cn @ ''.revoked''"
    by (auto simp: valid_name_def)
  from e exists_in_certs [OF ne(1) es]
  have short: "utf8_len (cn @ ''.revoked'') \<le> NAME_MAX"
    and there: "there = (lookup (tree fs) [''app'', ''certs'', cn @ ''.revoked''] \<noteq> None)"
    by (auto split: if_splits)
  show ?thesis
  proof (cases there)
    case True
    with c have "rmtree fs (Path ''/'' [''app'', ''certs'', cn @ ''.revoked'']) = Inr fs1" by simp
    from rmtree_revoked_dir [OF v this] ne(2) short show ?thesis
      by (auto dest: spec [of _ cn] spec [of _ "[]"])
  next
    case False
    with c there short show ?thesis by simp
  qed
qed

text \<open>On a writable file system, with the directory of the certificate in place, the
  block moves it: afterwards \<^verbatim>\<open>cn.revoked\<close> is what \<^verbatim>\<open>cn\<close> was, and \<^verbatim>\<open>cn\<close> is gone.\<close>

lemma mark_revoked_moves:
  assumes v: "valid_name cn" and w: "\<not> read_only fs"
    and src: "lookup (tree fs) [''app'', ''certs'', cn] = Some n"
    and m: "mark_revoked cn fs = Inr fs'"
  shows "lookup (tree fs') [''app'', ''certs'', cn @ ''.revoked''] = Some n
         \<and> lookup (tree fs') [''app'', ''certs'', cn] = None
         \<and> \<not> read_only fs'
         \<and> utf8_len (cn @ ''.revoked'') \<le> NAME_MAX"
proof -
  from certs_is_dir [OF src] obtain es
    where es: "lookup (tree fs) [''app'', ''certs''] = Some (Dir es)" by auto
  from mark_revoked_parts [OF v m] obtain there fs1 where
    e: "exists fs (Path ''/'' [''app'', ''certs'', cn @ ''.revoked'']) = Inr there"
    and rm: "if there then rmtree fs (Path ''/'' [''app'', ''certs'', cn @ ''.revoked'']) = Inr fs1
         else fs1 = fs"
    and rn: "case os_rename fs1 (Path ''/'' [''app'', ''certs'', cn])
                    (Path ''/'' [''app'', ''certs'', cn @ ''.revoked'']) of
               Inr fs2 \<Rightarrow> fs' = fs2 | Inl e \<Rightarrow> fs' = fs1"
    by blast
  from clear_revoked_dir [OF v es e rm] src w
  have fs1: "lookup (tree fs1) [''app'', ''certs'', cn @ ''.revoked''] = None"
    "lookup (tree fs1) [''app'', ''certs'', cn] = Some n" "\<not> read_only fs1"
    and short: "utf8_len (cn @ ''.revoked'') \<le> NAME_MAX"
    by simp_all
  from rename_cert_dir_ok [OF v fs1(3) short fs1(2) fs1(1)] obtain fs2
    where fs2: "os_rename fs1 (Path ''/'' [''app'', ''certs'', cn])
                  (Path ''/'' [''app'', ''certs'', cn @ ''.revoked'']) = Inr fs2" by auto
  with rn have "fs' = fs2" by simp
  with rename_cert_dir [OF v fs2] fs1 short show ?thesis by simp
qed

lemma mark_revoked_read_only:
  assumes "read_only fs" "mark_revoked cn fs = Inr fs'"
  shows "fs' = fs"
proof -
  let ?dst = "joinpath CERTS_DIR (cn @ ''.revoked'')"
  from assms(2) obtain there fs1 where
    c: "(if there then raise_from ?dst (rmtree fs ?dst) else Inr fs) = Inr fs1"
    and r: "(case os_rename fs1 (joinpath CERTS_DIR cn) ?dst of Inr fs2 \<Rightarrow> Inr fs2 | Inl e \<Rightarrow> Inr fs1)
              = Inr fs'"
    by (auto simp: mark_revoked_def Let_def split: sum.splits)
  from c assms(1) have "fs1 = fs"
    using rmtree_read_only [of fs ?dst fs1]
    by (auto simp: raise_from_def split: if_splits sum.splits)
  with r assms(1) show ?thesis
    using os_rename_read_only [of fs "joinpath CERTS_DIR cn" ?dst]
    by (auto split: sum.splits)
qed

section \<open>The paths through \<^verbatim>\<open>revoke_certificate\<close>\<close>

lemma run_step_command_fsys:
  "run_step_command ev args w = (r, w1) \<Longrightarrow>
     (case subprocess_run ev (''step'' # args) [(''STEPPATH'', ''/home/step'')] (fsys w) of
        Inl e \<Rightarrow> r = Inl e \<and> fsys w1 = fsys w
      | Inr (result, fs) \<Rightarrow> r = Inr result \<and> fsys w1 = fs)
     \<and> invoked w1 = invoked w @ [''step'' # args]"
  by (auto simp: run_step_command_def Let_def split: sum.splits prod.splits)

lemma revoke_success:
  assumes "revoke_certificate ev cn serial w = (Inr (True, msg), w')"
  shows "\<exists>token_result w1 result w2 fs3.
           exists (fsys w) (joinpath (joinpath CERTS_DIR cn) (cn @ ''.crt'')) = Inr True
           \<and> run_step_command ev (token_cmd ev serial) w = (Inr token_result, w1)
           \<and> returncode token_result = 0
           \<and> run_step_command ev (revoke_cmd ev serial (strip (stdout token_result))) w1
                = (Inr result, w2)
           \<and> (returncode result = 0 \<or> str_in ''already revoked'' (lower (stderr result)))
           \<and> mark_revoked cn (fsys w2) = Inr fs3
           \<and> w' = w2\<lparr>fsys := fs3\<rparr>"
  using assms
  by (auto simp: revoke_certificate_def Let_def raise_from_def
           split: if_splits sum.splits prod.splits)

lemma cert_file_gives_dir:
  assumes v: "valid_name cn"
    and f: "exists fs (joinpath (joinpath CERTS_DIR cn) (cn @ ''.crt'')) = Inr True"
  shows "(\<exists>es. lookup (tree fs) [''app'', ''certs'', cn] = Some (Dir es))
         \<and> utf8_len cn \<le> NAME_MAX \<and> utf8_len (cn @ ''.crt'') \<le> NAME_MAX"
proof -
  from v have p: "joinpath (joinpath CERTS_DIR cn) (cn @ ''.crt'')
                    = Path ''/'' [''app'', ''certs'', cn, cn @ ''.crt'']"
    by (simp add: cert_file_eq)
  from v have plain: "''..'' \<notin> set (parts (Path ''/'' [''app'', ''certs'', cn, cn @ ''.crt'']))"
    by (auto simp: valid_name_def)
  from f p obtain n where "stat fs (Path ''/'' [''app'', ''certs'', cn, cn @ ''.crt'']) = Inr n"
    by (auto simp: exists_def split: sum.splits if_splits)
  from stat_plain_Inr [OF plain this]
  have "lookup (tree fs) ([''app'', ''certs'', cn] @ [cn @ ''.crt'']) = Some n"
    and "utf8_len cn \<le> NAME_MAX" "utf8_len (cn @ ''.crt'') \<le> NAME_MAX" by simp_all
  then show ?thesis
    using lookup_parent_dir [of "tree fs" "[''app'', ''certs'', cn]" "cn @ ''.crt''" n] by simp
qed

lemma revoke_success_quiet:
  assumes q: "revocation_leaves_files ev serial (fsys w)"
    and r: "revoke_certificate ev cn serial w = (Inr (True, msg), w')"
  shows "exists (fsys w) (joinpath (joinpath CERTS_DIR cn) (cn @ ''.crt'')) = Inr True
         \<and> mark_revoked cn (fsys w) = Inr (fsys w')"
proof -
  from revoke_success [OF r] obtain token_result w1 result w2 fs3 where
    e: "exists (fsys w) (joinpath (joinpath CERTS_DIR cn) (cn @ ''.crt'')) = Inr True"
    and t: "run_step_command ev (token_cmd ev serial) w = (Inr token_result, w1)"
    and v: "run_step_command ev (revoke_cmd ev serial (strip (stdout token_result))) w1
              = (Inr result, w2)"
    and m: "mark_revoked cn (fsys w2) = Inr fs3" and w': "w' = w2\<lparr>fsys := fs3\<rparr>"
    by blast
  from run_step_command_fsys [OF t] obtain fs1 where
    t': "subprocess_run ev (''step'' # token_cmd ev serial) [(''STEPPATH'', ''/home/step'')] (fsys w)
           = Inr (token_result, fs1)" and 1: "fsys w1 = fs1"
    by (auto split: sum.splits prod.splits)
  from q t' have 2: "fs1 = fsys w"
    and q': "case subprocess_run ev (''step'' # revoke_cmd ev serial (strip (stdout token_result)))
                    [(''STEPPATH'', ''/home/step'')] fs1 of
               Inl e \<Rightarrow> True | Inr (result, fs2) \<Rightarrow> fs2 = fsys w"
    by (auto simp: revocation_leaves_files_def)
  from run_step_command_fsys [OF v] 1 obtain fs2 where
    v': "subprocess_run ev (''step'' # revoke_cmd ev serial (strip (stdout token_result)))
           [(''STEPPATH'', ''/home/step'')] fs1 = Inr (result, fs2)" and 3: "fsys w2 = fs2"
    by (auto split: sum.splits prod.splits)
  from q' v' have "fs2 = fsys w" by simp
  with e m w' 3 show ?thesis by simp
qed

section \<open>Commands that the functions run\<close>

lemma add_sans_eq:
  "add_sans cmd l =
     cmd @ concat (map (\<lambda>s. [''--san'', strip s]) (filter (\<lambda>s. strip s \<noteq> []) l))"
  by (induction l arbitrary: cmd) simp_all

lemma describe_cert_no_run:
  "describe_cert (ev\<lparr>subprocess_run := run\<rparr>) fs d f = describe_cert ev fs d f"
  by (simp add: describe_cert_def cong: sum.case_cong)

lemma collect_certs_no_run:
  "collect_certs (ev\<lparr>subprocess_run := run\<rparr>) fs entries certs
     = collect_certs ev fs entries certs"
  by (induction entries arbitrary: certs)
     (simp_all add: Let_def describe_cert_no_run cong: sum.case_cong if_cong)

section \<open>What creating a directory and writing a file change\<close>

lemma kind_at_Nil_Dir [simp]: "kind_at (Dir es) [] = Directory"
  by (simp add: kind_at_def)

lemma kind_at_Cons_Dir:
  "kind_at (Dir es) (x # rs) = (case map_of es x of None \<Rightarrow> Absent | Some m \<Rightarrow> kind_at m rs)"
  by (simp add: kind_at_def split: option.splits)


lemma kind_at_empty_dir:
  "kind_at (Dir []) r = (if r = [] then Directory else Absent)"
  by (cases r) (simp_all add: kind_at_def)

lemma kind_at_Absent: "(kind_at t r = Absent) = (lookup t r = None)"
  by (auto simp: kind_at_def split: option.splits node.splits)


lemma kind_at_Regular: "(kind_at t r = Regular s) = (lookup t r = Some (File s))"
  by (auto simp: kind_at_def split: option.splits node.splits)

text \<open>A new, empty directory at a free path: nothing else is different.\<close>

lemma kind_at_put_new:
  "lookup t q = None \<Longrightarrow>
     kind_at (put t q (Some (Dir []))) r = kind_at t r
     \<or> (r = q \<and> kind_at t r = Absent \<and> kind_at (put t q (Some (Dir []))) r = Directory)"
proof (induction t q "Some (Dir [])" arbitrary: r rule: put.induct)
  case (1 n)
  then show ?case by simp
next
  case (2 s c cs)
  then show ?case by simp
next
  case (3 es c)
  then have free: "map_of es c = None" by (simp split: option.splits)
  show ?case
  proof (cases r)
    case Nil
    then show ?thesis by simp
  next
    case (Cons x rs)
    with free show ?thesis
      by (auto simp: kind_at_Cons_Dir update_conv' kind_at_empty_dir)
  qed
next
  case (4 es c d ds)
  show ?case
  proof (cases "map_of es c")
    case None
    then show ?thesis by simp
  next
    case (Some m)
    with 4(2) have free: "lookup m (d # ds) = None" by simp
    show ?thesis
    proof (cases r)
      case Nil
      with Some show ?thesis by simp
    next
      case (Cons x rs)
      with Some 4(1) [OF Some free, of rs] show ?thesis
        by (auto simp: kind_at_Cons_Dir update_conv')
    qed
  qed
qed


lemma os_mkdir_frame:
  assumes "os_mkdir fs p = Inr fs'"
  shows "read_only fs' = read_only fs
         \<and> (\<forall>r. kind_at (tree fs') r = kind_at (tree fs) r
                 \<or> (kind_at (tree fs) r = Absent \<and> kind_at (tree fs') r = Directory
                     \<and> resolve fs p = Inr r))"
proof -
  from assms obtain q where q: "resolve fs p = Inr q" "lookup (tree fs) q = None"
    and fs': "fs' = fs\<lparr>tree := put (tree fs) q (Some (Dir []))\<rparr>"
    by (auto simp: os_mkdir_def split: sum.splits option.splits if_splits)
  from kind_at_put_new [OF q(2)] q(1) fs' show ?thesis by auto
qed

text \<open>\<^verbatim>\<open>mkdir(parents=True, exist_ok=True)\<close> adds directories, on the way to the path when
  that has no \<^verbatim>\<open>'..'\<close>, and changes nothing else.\<close>

lemma mkdir_parents_frame:
  "mkdir_parents fs a ps = Inr fs' \<Longrightarrow>
     read_only fs' = read_only fs
     \<and> (\<forall>r. kind_at (tree fs') r = kind_at (tree fs) r
             \<or> (kind_at (tree fs) r = Absent \<and> kind_at (tree fs') r = Directory
                 \<and> (''..'' \<notin> set ps \<longrightarrow> prefix r ps)))"
proof (induction fs a ps arbitrary: fs' rule: mkdir_parents.induct)
  case (1 fs a ps)
  let ?P = "\<lambda>fs fs' ps. read_only fs' = read_only fs
     \<and> (\<forall>r. kind_at (tree fs') r = kind_at (tree fs) r
             \<or> (kind_at (tree fs) r = Absent \<and> kind_at (tree fs') r = Directory
                 \<and> (''..'' \<notin> set ps \<longrightarrow> prefix r ps)))"
  have one: "?P f f' ps" if "os_mkdir f (Path a ps) = Inr f'" for f f'
  proof -
    have "r = ps" if "resolve f (Path a ps) = Inr r" "''..'' \<notin> set ps" for r
      using resolve_plain [of "Path a ps" f r] that by simp
    with os_mkdir_frame [OF that] show ?thesis by auto
  qed
  show ?case
  proof (cases "os_mkdir fs (Path a ps)")
    case (Inr f)
    with 1(2) have "fs' = f" by (simp add: mkdir_parents.simps [of fs a ps])
    with one [OF Inr] show ?thesis by simp
  next
    case (Inl e)
    show ?thesis
    proof (cases "e = ENOENT")
      case False
      with Inl 1(2) have "fs' = fs"
        by (auto simp: mkdir_parents.simps [of fs a ps] split: sum.splits if_splits)
      then show ?thesis by simp
    next
      case True
      with Inl 1(2) obtain fs1 where ne: "ps \<noteq> []"
        and rec: "mkdir_parents fs a (butlast ps) = Inr fs1"
        and rest: "os_mkdir fs1 (Path a ps) = Inr fs' \<or> fs' = fs1"
        by (auto simp: mkdir_parents.simps [of fs a ps] split: sum.splits if_splits)
      from 1(1) [OF Inl True ne rec]
      have ih: "?P fs fs1 (butlast ps)" .
      have up: "prefix r ps" if "''..'' \<notin> set (butlast ps) \<longrightarrow> prefix r (butlast ps)"
        "''..'' \<notin> set ps" for r
      proof -
        from that have "prefix r (butlast ps)" by (auto dest: in_set_butlastD)
        then show ?thesis using prefixeq_butlast [of ps] by (rule prefix_order.trans)
      qed
      from ih up have a: "?P fs fs1 ps" by blast
      from rest show ?thesis
      proof
        assume "fs' = fs1"
        with a show ?thesis by simp
      next
        assume "os_mkdir fs1 (Path a ps) = Inr fs'"
        from one [OF this] have b: "?P fs1 fs' ps" .
        from a b have ro: "read_only fs' = read_only fs" by simp
        have "kind_at (tree fs') r = kind_at (tree fs) r
             \<or> (kind_at (tree fs) r = Absent \<and> kind_at (tree fs') r = Directory
                 \<and> (''..'' \<notin> set ps \<longrightarrow> prefix r ps))" for r
          using a b by (metis kind.distinct(3))
        with ro show ?thesis by simp
      qed
    qed
  qed
qed

lemma mkdir_frame:
  assumes "mkdir fs p = Inr fs'"
  shows "read_only fs' = read_only fs"
    and "(kind_at (tree fs') r = Regular s) = (kind_at (tree fs) r = Regular s)"
    and "kind_at (tree fs) r = Directory \<Longrightarrow> kind_at (tree fs') r = Directory"
    and "''..'' \<notin> set (parts p) \<Longrightarrow> \<not> prefix r (parts p) \<Longrightarrow>
           kind_at (tree fs') r = kind_at (tree fs) r"
  using mkdir_parents_frame [of fs "anchor p" "parts p" fs'] assms
  by (auto simp: mkdir_def dest: spec [of _ r])


section \<open>C1: revocation is a two-step token flow\<close>

text \<open>
  C1. When the certificate file of the common name exists, \<^verbatim>\<open>revoke_certificate\<close> first
  runs \<^verbatim>\<open>step ca token <serial> --revoke ...\<close>. If that call raises, the exception
  leaves the function and nothing else was run. If it exits with a code other than 0,
  the function returns failure with the message
  \<^verbatim>\<open>Failed to generate revocation token: \<close> followed by the standard error of the token
  command, and the token command is the only command run. If it exits with 0, the
  commands run are the token command and then
  \<^verbatim>\<open>step ca revoke <serial> --ca-url ... --root ... --token <token>\<close>, the token being
  the stripped standard output of the first.
\<close>

theorem revoke_two_step_flow:
  assumes "exists (fsys w) (joinpath (joinpath CERTS_DIR common_name) (common_name @ ''.crt''))
             = Inr True"
  shows
    "case subprocess_run ev
            [''step'', ''ca'', ''token'', serial, ''--revoke'',
             ''--ca-url'', STEP_CA_URL ev, ''--root'', STEP_CA_ROOT ev,
             ''--provisioner'', ''iot-devices'',
             ''--provisioner-password-file'', PROVISIONER_PASSWORD_FILE]
            [(''STEPPATH'', ''/home/step'')] (fsys w) of
       Inl e \<Rightarrow>
         revoke_certificate ev common_name serial w =
           (Inl e,
            w\<lparr>invoked := invoked w @
               [[''step'', ''ca'', ''token'', serial, ''--revoke'',
                 ''--ca-url'', STEP_CA_URL ev, ''--root'', STEP_CA_ROOT ev,
                 ''--provisioner'', ''iot-devices'',
                 ''--provisioner-password-file'', PROVISIONER_PASSWORD_FILE]]\<rparr>)
     | Inr (token_result, fs1) \<Rightarrow>
         if returncode token_result \<noteq> 0 then
           revoke_certificate ev common_name serial w =
             (Inr (False, ''Failed to generate revocation token: '' @ stderr token_result),
              \<lparr>fsys = fs1,
               invoked = invoked w @
                 [[''step'', ''ca'', ''token'', serial, ''--revoke'',
                   ''--ca-url'', STEP_CA_URL ev, ''--root'', STEP_CA_ROOT ev,
                   ''--provisioner'', ''iot-devices'',
                   ''--provisioner-password-file'', PROVISIONER_PASSWORD_FILE]]\<rparr>)
         else
           invoked (snd (revoke_certificate ev common_name serial w)) =
             invoked w @
               [[''step'', ''ca'', ''token'', serial, ''--revoke'',
                 ''--ca-url'', STEP_CA_URL ev, ''--root'', STEP_CA_ROOT ev,
                 ''--provisioner'', ''iot-devices'',
                 ''--provisioner-password-file'', PROVISIONER_PASSWORD_FILE],
                [''step'', ''ca'', ''revoke'', serial,
                 ''--ca-url'', STEP_CA_URL ev, ''--root'', STEP_CA_ROOT ev,
                 ''--token'', strip (stdout token_result)]]"
  using assms
  by (simp add: revoke_certificate_def run_step_command_def token_cmd_def revoke_cmd_def Let_def
           raise_from_def split: sum.splits prod.splits)

text \<open>The flow on an issued certificate \<^verbatim>\<open>dev1\<close> when the CA refuses the token.\<close>

theorem revoke_two_step_flow_witness:
  "exists (example_fs [(''dev1'', dev1_dir)] False)
     (joinpath (joinpath CERTS_DIR ''dev1'') (''dev1'' @ ''.crt'')) = Inr True
   \<and> revoke_certificate (example_env (failed ''denied'') (done_ok [])) ''dev1'' ''77''
         \<lparr>fsys = example_fs [(''dev1'', dev1_dir)] False, invoked = []\<rparr>
       = (Inr (False, ''Failed to generate revocation token: denied''),
          \<lparr>fsys = example_fs [(''dev1'', dev1_dir)] False,
           invoked = [[''step'', ''ca'', ''token'', ''77'', ''--revoke'',
                       ''--ca-url'', ''https://step-ca:9000'',
                       ''--root'', ''/home/step/certs/root_ca.crt'',
                       ''--provisioner'', ''iot-devices'',
                       ''--provisioner-password-file'', ''/home/step/secrets/password'']]\<rparr>)
   \<and> invoked (snd (revoke_certificate
                     (example_env (done_ok ('' TOK'' @ [CHR 0x0A])) (done_ok [])) ''dev1'' ''77''
                     \<lparr>fsys = example_fs [(''dev1'', dev1_dir)] False, invoked = []\<rparr>))
       = [[''step'', ''ca'', ''token'', ''77'', ''--revoke'',
           ''--ca-url'', ''https://step-ca:9000'',
           ''--root'', ''/home/step/certs/root_ca.crt'',
           ''--provisioner'', ''iot-devices'',
           ''--provisioner-password-file'', ''/home/step/secrets/password''],
          [''step'', ''ca'', ''revoke'', ''77'',
           ''--ca-url'', ''https://step-ca:9000'',
           ''--root'', ''/home/step/certs/root_ca.crt'',
           ''--token'', ''TOK'']]"
proof -
  have there: "exists (example_fs [(''dev1'', dev1_dir)] False)
                (joinpath (joinpath CERTS_DIR ''dev1'') (''dev1'' @ ''.crt'')) = Inr True"
    by code_simp
  then have h: "exists (fsys \<lparr>fsys = example_fs [(''dev1'', dev1_dir)] False, invoked = []\<rparr>)
                (joinpath (joinpath CERTS_DIR ''dev1'') (''dev1'' @ ''.crt'')) = Inr True"
    by simp
  from revoke_two_step_flow [OF h, of "example_env (failed ''denied'') (done_ok [])" "''77''"]
  have 1: "revoke_certificate (example_env (failed ''denied'') (done_ok [])) ''dev1'' ''77''
         \<lparr>fsys = example_fs [(''dev1'', dev1_dir)] False, invoked = []\<rparr>
       = (Inr (False, ''Failed to generate revocation token: denied''),
          \<lparr>fsys = example_fs [(''dev1'', dev1_dir)] False,
           invoked = [[''step'', ''ca'', ''token'', ''77'', ''--revoke'',
                       ''--ca-url'', ''https://step-ca:9000'',
                       ''--root'', ''/home/step/certs/root_ca.crt'',
                       ''--provisioner'', ''iot-devices'',
                       ''--provisioner-password-file'', ''/home/step/secrets/password'']]\<rparr>)"
    by (simp add: example_env_def example_step_def failed_def PROVISIONER_PASSWORD_FILE_def)
  have s: "strip ('' TOK'' @ [CHR 0x0A]) = ''TOK''" by code_simp
  from revoke_two_step_flow [OF h,
      of "example_env (done_ok ('' TOK'' @ [CHR 0x0A])) (done_ok [])" "''77''"] s
  have 2: "invoked (snd (revoke_certificate
                     (example_env (done_ok ('' TOK'' @ [CHR 0x0A])) (done_ok [])) ''dev1'' ''77''
                     \<lparr>fsys = example_fs [(''dev1'', dev1_dir)] False, invoked = []\<rparr>))
       = [[''step'', ''ca'', ''token'', ''77'', ''--revoke'',
           ''--ca-url'', ''https://step-ca:9000'',
           ''--root'', ''/home/step/certs/root_ca.crt'',
           ''--provisioner'', ''iot-devices'',
           ''--provisioner-password-file'', ''/home/step/secrets/password''],
          [''step'', ''ca'', ''revoke'', ''77'',
           ''--ca-url'', ''https://step-ca:9000'',
           ''--root'', ''/home/step/certs/root_ca.crt'',
           ''--token'', ''TOK'']]"
    by (simp add: example_env_def example_step_def done_ok_def PROVISIONER_PASSWORD_FILE_def)
  from there 1 2 show ?thesis by simp
qed

section \<open>C3: listing certificates\<close>

text \<open>
  C3, as stated: every call of \<^verbatim>\<open>list_certificates\<close> gets its information by running
  the external CA tool. It does not: with \<^verbatim>\<open>dev1\<close> issued, the call returns the entry
  of \<^verbatim>\<open>dev1\<close> and no command has been run.
\<close>

theorem list_certificates_counterexample:
  "list_certificates (example_env (done_ok []) (done_ok []))
      \<lparr>fsys = example_fs [(''dev1'', dev1_dir)] False, invoked = []\<rparr> =
   (Inr [\<lparr>e_cn = ''dev1'', e_issued = ''100'', e_expires = ''200'', e_serial = ''77'',
          e_status = ''Active''\<rparr>],
    \<lparr>fsys = example_fs [(''dev1'', dev1_dir)] False, invoked = []\<rparr>)"
  by code_simp

text \<open>
  C3, amended: \<^verbatim>\<open>list_certificates\<close> never runs the external CA tool. It reads the
  entries of \<^verbatim>\<open>CERTS_DIR\<close> and parses each certificate file in the process itself: the
  world, with the list of commands run, is the same after the call, and the result is
  the same whatever \<^verbatim>\<open>subprocess.run\<close> would do.
\<close>

theorem list_certificates_runs_no_command:
  "snd (list_certificates ev w) = w
   \<and> list_certificates (ev\<lparr>subprocess_run := run\<rparr>) w = list_certificates ev w"
  by (simp add: list_certificates_def collect_certs_no_run split: sum.splits)

section \<open>C7: the health check\<close>

text \<open>
  C7. \<^verbatim>\<open>get_ca_health\<close> runs \<^verbatim>\<open>step ca health --ca-url ... --root ...\<close> and nothing
  else. The status it returns is \<^verbatim>\<open>healthy\<close> exactly when the command exits with code
  0; with another exit code the result is \<^verbatim>\<open>unhealthy\<close> with the standard error of the
  command as message; when running the command raises, the result is \<^verbatim>\<open>error\<close> with the
  text of the exception.
\<close>

theorem get_ca_health_by_exit_code:
  "invoked (snd (get_ca_health ev w)) =
     invoked w @ [[''step'', ''ca'', ''health'', ''--ca-url'', STEP_CA_URL ev, ''--root'', STEP_CA_ROOT ev]]
   \<and> (case subprocess_run ev
             [''step'', ''ca'', ''health'', ''--ca-url'', STEP_CA_URL ev, ''--root'', STEP_CA_ROOT ev]
             [(''STEPPATH'', ''/home/step'')] (fsys w) of
         Inl e \<Rightarrow> fst (get_ca_health ev w) = \<lparr>status = ''error'', message = str_exception ev e\<rparr>
       | Inr (result, fs) \<Rightarrow>
           (status (fst (get_ca_health ev w)) = ''healthy'' \<longleftrightarrow> returncode result = 0)
           \<and> (returncode result \<noteq> 0 \<longrightarrow>
                fst (get_ca_health ev w) = \<lparr>status = ''unhealthy'', message = stderr result\<rparr>))"
  by (simp add: get_ca_health_def run_step_command_def Let_def split: sum.splits prod.splits)

text \<open>The example tool answers the health check with exit code 1.\<close>

theorem get_ca_health_by_exit_code_witness:
  "fst (get_ca_health (example_env (done_ok []) (done_ok []))
          \<lparr>fsys = example_fs [] False, invoked = []\<rparr>)
     = \<lparr>status = ''unhealthy'', message = ''connection refused''\<rparr>"
  using get_ca_health_by_exit_code [of "example_env (done_ok []) (done_ok [])"
      "\<lparr>fsys = example_fs [] False, invoked = []\<rparr>"]
  by (simp add: example_env_def example_step_def)

section \<open>C10: the certificate type\<close>

text \<open>
  C10. \<^verbatim>\<open>issue_certificate\<close> never reads \<^verbatim>\<open>cert_type\<close>: two calls that differ only in
  the certificate type run the same command, leave the same world and return the same
  triple (or raise the same exception).
\<close>

theorem cert_type_has_no_effect:
  "issue_certificate ev common_name cert_type validity_days sans w =
   issue_certificate ev common_name cert_type' validity_days sans w"
  by (simp add: issue_certificate_def)

section \<open>C4: the command that issues a certificate\<close>

text \<open>
  C4, as stated: the command ends with one pair \<^verbatim>\<open>--san <s>\<close> for each non-blank entry
  \<^verbatim>\<open>s\<close> of the SAN list. The entry is passed stripped, not as it is: for the list with
  the one entry \<^verbatim>\<open>" a "\<close> the command ends with \<^verbatim>\<open>--san a\<close>.
\<close>

theorem issue_certificate_command_counterexample:
  "invoked (snd (issue_certificate (example_env (done_ok []) (done_ok [])) ''dev1'' ''Server'' 30
                   (Some ['' a '']) \<lparr>fsys = example_fs [] False, invoked = []\<rparr>))
     = [[''step'', ''ca'', ''certificate'', ''dev1'',
         ''/app/certs/dev1/dev1.crt'', ''/app/certs/dev1/dev1.key'',
         ''--ca-url'', ''https://step-ca:9000'', ''--root'', ''/home/step/certs/root_ca.crt'',
         ''--not-after'', ''720h'', ''--provisioner'', ''iot-devices'',
         ''--provisioner-password-file'', ''/home/step/secrets/password'', ''--force'',
         ''--san'', ''a'']]
   \<and> invoked (snd (issue_certificate (example_env (done_ok []) (done_ok [])) ''dev1'' ''Server'' 30
                   (Some ['' a '']) \<lparr>fsys = example_fs [] False, invoked = []\<rparr>))
     \<noteq> [[''step'', ''ca'', ''certificate'', ''dev1'',
         ''/app/certs/dev1/dev1.crt'', ''/app/certs/dev1/dev1.key'',
         ''--ca-url'', ''https://step-ca:9000'', ''--root'', ''/home/step/certs/root_ca.crt'',
         ''--not-after'', ''720h'', ''--provisioner'', ''iot-devices'',
         ''--provisioner-password-file'', ''/home/step/secrets/password'', ''--force'',
         ''--san'', '' a '']]"
  by code_simp

text \<open>
  C4, amended: when creating the directory of the certificate does not raise,
  \<^verbatim>\<open>issue_certificate\<close> runs exactly one command,
  \<^verbatim>\<open>step ca certificate cn <cert file> <key file> --ca-url <URL> --root <ROOT>
  --not-after <validity_days*24>h --provisioner iot-devices --provisioner-password-file
  <FILE> --force\<close>, followed by one pair \<^verbatim>\<open>--san <s.strip()>\<close> for each entry \<^verbatim>\<open>s\<close> of
  the SAN list that is not blank, in order; when creating the directory raises, it runs
  none. For a common name of one path component the two files are
  \<^verbatim>\<open>/app/certs/cn/cn.crt\<close> and \<^verbatim>\<open>/app/certs/cn/cn.key\<close>.
\<close>

theorem issue_certificate_command:
  "invoked (snd (issue_certificate ev common_name cert_type validity_days sans w)) =
     invoked w @
       (case mkdir (fsys w) (joinpath CERTS_DIR common_name) of
          Inl e \<Rightarrow> []
        | Inr fs1 \<Rightarrow>
            [[''step'', ''ca'', ''certificate'', common_name,
              str_path (joinpath (joinpath CERTS_DIR common_name) (common_name @ ''.crt'')),
              str_path (joinpath (joinpath CERTS_DIR common_name) (common_name @ ''.key'')),
              ''--ca-url'', STEP_CA_URL ev, ''--root'', STEP_CA_ROOT ev,
              ''--not-after'', str_int (validity_days * 24) @ ''h'',
              ''--provisioner'', ''iot-devices'',
              ''--provisioner-password-file'', PROVISIONER_PASSWORD_FILE,
              ''--force'']
             @ concat (map (\<lambda>s. [''--san'', strip s])
                         (filter (\<lambda>s. strip s \<noteq> []) (case sans of None \<Rightarrow> [] | Some l \<Rightarrow> l)))])
   \<and> (valid_name common_name \<longrightarrow>
        str_path (joinpath (joinpath CERTS_DIR common_name) (common_name @ ''.crt''))
          = ''/app/certs/'' @ common_name @ ''/'' @ common_name @ ''.crt''
        \<and> str_path (joinpath (joinpath CERTS_DIR common_name) (common_name @ ''.key''))
          = ''/app/certs/'' @ common_name @ ''/'' @ common_name @ ''.key'')"
proof -
  have "invoked (snd (issue_certificate ev common_name cert_type validity_days sans w)) =
     invoked w @
       (case mkdir (fsys w) (joinpath CERTS_DIR common_name) of
          Inl e \<Rightarrow> []
        | Inr fs1 \<Rightarrow>
            [[''step'', ''ca'', ''certificate'', common_name,
              str_path (joinpath (joinpath CERTS_DIR common_name) (common_name @ ''.crt'')),
              str_path (joinpath (joinpath CERTS_DIR common_name) (common_name @ ''.key'')),
              ''--ca-url'', STEP_CA_URL ev, ''--root'', STEP_CA_ROOT ev,
              ''--not-after'', str_int (validity_days * 24) @ ''h'',
              ''--provisioner'', ''iot-devices'',
              ''--provisioner-password-file'', PROVISIONER_PASSWORD_FILE,
              ''--force'']
             @ concat (map (\<lambda>s. [''--san'', strip s])
                         (filter (\<lambda>s. strip s \<noteq> []) (case sans of None \<Rightarrow> [] | Some l \<Rightarrow> l)))])"
    by (cases sans)
       (simp_all add: issue_certificate_def run_step_command_def raise_from_def Let_def add_sans_eq
          split: sum.splits prod.splits)
  moreover have "valid_name common_name \<Longrightarrow>
        str_path (joinpath (joinpath CERTS_DIR common_name) (common_name @ sfx))
          = ''/app/certs/'' @ common_name @ ''/'' @ common_name @ sfx"
    if "sfx = ''.crt'' \<or> sfx = ''.key''" for sfx
    using that by (auto simp: cert_file_eq str_path_def)
  ultimately show ?thesis by simp
qed

theorem issue_certificate_command_witness:
  "valid_name ''dev1''
   \<and> invoked (snd (issue_certificate (example_env (done_ok []) (done_ok [])) ''dev1'' ''Server'' 30
                   (Some ['' a '', ''  '', ''b'']) \<lparr>fsys = example_fs [] False, invoked = []\<rparr>))
     = [[''step'', ''ca'', ''certificate'', ''dev1'',
         ''/app/certs/dev1/dev1.crt'', ''/app/certs/dev1/dev1.key'',
         ''--ca-url'', ''https://step-ca:9000'', ''--root'', ''/home/step/certs/root_ca.crt'',
         ''--not-after'', ''720h'', ''--provisioner'', ''iot-devices'',
         ''--provisioner-password-file'', ''/home/step/secrets/password'', ''--force'',
         ''--san'', ''a'', ''--san'', ''b'']]"
proof -
  have v: "valid_name ''dev1''" by (simp add: valid_name_def)
  have m: "mkdir (example_fs [] False) (joinpath CERTS_DIR ''dev1'')
             = Inr (example_fs [(''dev1'', Dir [])] False)"
    by code_simp
  have n: "str_int (30 * 24) = ''720''" by code_simp
  have s: "strip '' a '' = ''a''" "strip ''  '' = []" "strip ''b'' = ''b''" by code_simp+
  from issue_certificate_command [of "example_env (done_ok []) (done_ok [])" "''dev1''"
      "''Server''" 30 "Some ['' a '', ''  '', ''b'']" "\<lparr>fsys = example_fs [] False, invoked = []\<rparr>"]
    v m n s
  show ?thesis
    by (auto simp: example_env_def PROVISIONER_PASSWORD_FILE_def)
qed

section \<open>C2: success of a revocation and the rename of the directory\<close>

text \<open>
  C2, as stated: whenever \<^verbatim>\<open>revoke_certificate\<close> returns success, the directory of the
  certificate has been renamed. The rename is inside a \<^verbatim>\<open>try\<close> whose \<^verbatim>\<open>except\<close> drops
  the exception: on a read-only file system the revocation of \<^verbatim>\<open>dev1\<close> returns success
  and the directory is where it was.
\<close>

theorem revoke_success_rename_counterexample:
  "revoke_certificate (example_env (done_ok ''TOK'') (done_ok [])) ''dev1'' ''77''
       \<lparr>fsys = example_fs [(''dev1'', dev1_dir)] True, invoked = []\<rparr>
     = (Inr (True, ''Certificate revoked successfully''),
        \<lparr>fsys = example_fs [(''dev1'', dev1_dir)] True,
         invoked = [[''step'', ''ca'', ''token'', ''77'', ''--revoke'',
                     ''--ca-url'', ''https://step-ca:9000'',
                     ''--root'', ''/home/step/certs/root_ca.crt'',
                     ''--provisioner'', ''iot-devices'',
                     ''--provisioner-password-file'', ''/home/step/secrets/password''],
                    [''step'', ''ca'', ''revoke'', ''77'',
                     ''--ca-url'', ''https://step-ca:9000'',
                     ''--root'', ''/home/step/certs/root_ca.crt'',
                     ''--token'', ''TOK'']]\<rparr>)
   \<and> is_dir (example_fs [(''dev1'', dev1_dir)] True) (joinpath CERTS_DIR ''dev1'') = Inr True
   \<and> exists (example_fs [(''dev1'', dev1_dir)] True) (joinpath CERTS_DIR (''dev1'' @ ''.revoked''))
       = Inr False"
  by code_simp

text \<open>
  C2, amended: whenever \<^verbatim>\<open>revoke_certificate\<close> returns success for a common name of one
  path component, it has tried to rename \<^verbatim>\<open>CERTS_DIR/cn\<close> to \<^verbatim>\<open>CERTS_DIR/cn.revoked\<close>
  and has ignored a failure of the rename. When the two calls of the tool left the files
  alone: on a writable file system the directory, with what it held, is at
  \<^verbatim>\<open>CERTS_DIR/cn.revoked\<close> afterwards and \<^verbatim>\<open>CERTS_DIR/cn\<close> is gone; on a read-only one
  the file system is as it was.
\<close>

theorem revoke_success_rename:
  assumes "valid_name cn"
    and "revocation_leaves_files ev serial (fsys w)"
    and "revoke_certificate ev cn serial w = (Inr (True, msg), w')"
  shows "if read_only (fsys w) then fsys w' = fsys w
         else stat (fsys w') (joinpath CERTS_DIR (cn @ ''.revoked''))
                = stat (fsys w) (joinpath CERTS_DIR cn)
              \<and> is_dir (fsys w') (joinpath CERTS_DIR (cn @ ''.revoked'')) = Inr True
              \<and> exists (fsys w') (joinpath CERTS_DIR cn) = Inr False"
proof (cases "read_only (fsys w)")
  case True
  with revoke_success_quiet [OF assms(2,3)] show ?thesis
    using mark_revoked_read_only [of "fsys w" cn "fsys w'"] by simp
next
  case False
  from assms(1) have ne: "cn \<noteq> ''..''" "cn @ ''.revoked'' \<noteq> ''..''"
    by (auto simp: valid_name_def)
  from revoke_success_quiet [OF assms(2,3)]
  have e: "exists (fsys w) (joinpath (joinpath CERTS_DIR cn) (cn @ ''.crt'')) = Inr True"
    and m: "mark_revoked cn (fsys w) = Inr (fsys w')" by simp_all
  from cert_file_gives_dir [OF assms(1) e] obtain es
    where es: "lookup (tree (fsys w)) [''app'', ''certs'', cn] = Some (Dir es)"
      and short: "utf8_len cn \<le> NAME_MAX" by auto
  from mark_revoked_moves [OF assms(1) False es m]
  have a: "lookup (tree (fsys w')) [''app'', ''certs'', cn @ ''.revoked''] = Some (Dir es)"
    and b: "lookup (tree (fsys w')) [''app'', ''certs'', cn] = None"
    and short': "utf8_len (cn @ ''.revoked'') \<le> NAME_MAX" by simp_all
  from certs_is_dir [OF es] obtain ds
    where ds: "lookup (tree (fsys w)) [''app'', ''certs''] = Some (Dir ds)" by auto
  from certs_is_dir [OF a] obtain ds'
    where ds': "lookup (tree (fsys w')) [''app'', ''certs''] = Some (Dir ds')" by auto
  from a short' have 1: "stat (fsys w') (joinpath CERTS_DIR (cn @ ''.revoked'')) = Inr (Dir es)"
    using stat_in_certs [OF ne(2) ds'] by (simp add: suffixed_dir_eq [OF assms(1)])
  from es short have 2: "stat (fsys w) (joinpath CERTS_DIR cn) = Inr (Dir es)"
    using stat_in_certs [OF ne(1) ds] by (simp add: cert_dir_eq [OF assms(1)])
  from b short have 3: "exists (fsys w') (joinpath CERTS_DIR cn) = Inr False"
    using exists_in_certs [OF ne(1) ds'] by (simp add: cert_dir_eq [OF assms(1)])
  from False 1 2 3 show ?thesis by (simp add: is_dir_def)
qed

text \<open>The revocation of \<^verbatim>\<open>dev1\<close> on a writable file system.\<close>

theorem revoke_success_rename_witness:
  "valid_name ''dev1''
   \<and> revocation_leaves_files (example_env (done_ok ''TOK'') (done_ok [])) ''77''
        (example_fs [(''dev1'', dev1_dir)] False)
   \<and> fst (revoke_certificate (example_env (done_ok ''TOK'') (done_ok [])) ''dev1'' ''77''
             \<lparr>fsys = example_fs [(''dev1'', dev1_dir)] False, invoked = []\<rparr>)
       = Inr (True, ''Certificate revoked successfully'')
   \<and> stat (fsys (snd (revoke_certificate (example_env (done_ok ''TOK'') (done_ok [])) ''dev1'' ''77''
                         \<lparr>fsys = example_fs [(''dev1'', dev1_dir)] False, invoked = []\<rparr>)))
          (joinpath CERTS_DIR (''dev1'' @ ''.revoked''))
       = Inr dev1_dir
   \<and> exists (fsys (snd (revoke_certificate (example_env (done_ok ''TOK'') (done_ok [])) ''dev1'' ''77''
                         \<lparr>fsys = example_fs [(''dev1'', dev1_dir)] False, invoked = []\<rparr>)))
          (joinpath CERTS_DIR ''dev1'')
       = Inr False"
proof -
  let ?ev = "example_env (done_ok ''TOK'') (done_ok [])"
  let ?w = "\<lparr>fsys = example_fs [(''dev1'', dev1_dir)] False, invoked = []\<rparr>"
  have v: "valid_name ''dev1''" by (simp add: valid_name_def)
  have q: "revocation_leaves_files ?ev ''77'' (fsys ?w)" by code_simp
  have r: "fst (revoke_certificate ?ev ''dev1'' ''77'' ?w)
             = Inr (True, ''Certificate revoked successfully'')" by code_simp
  then have r': "revoke_certificate ?ev ''dev1'' ''77'' ?w
             = (Inr (True, ''Certificate revoked successfully''),
                snd (revoke_certificate ?ev ''dev1'' ''77'' ?w))"
    by (cases "revoke_certificate ?ev ''dev1'' ''77'' ?w") simp
  have s: "stat (fsys ?w) (joinpath CERTS_DIR ''dev1'') = Inr dev1_dir" by code_simp
  have w: "\<not> read_only (fsys ?w)" by (simp add: example_fs_def)
  from revoke_success_rename [OF v q r'] w s q r v show ?thesis by simp
qed

section \<open>C9: an answer ``already revoked'' of the CA\<close>

lemma mark_revoked_raises:
  assumes "stat fs (joinpath CERTS_DIR (cn @ ''.revoked'')) = Inl e" "\<not> ignore_error e"
  shows "mark_revoked cn fs = Inl (OSError e (str_path (joinpath CERTS_DIR (cn @ ''.revoked''))))"
  using assms by (simp add: mark_revoked_def Let_def exists_def raise_from_def)

lemma mark_revoked_file_in_way:
  assumes "stat fs (joinpath CERTS_DIR (cn @ ''.revoked'')) = Inr (File s)"
  shows "mark_revoked cn fs
           = Inl (OSError ENOTDIR (str_path (joinpath CERTS_DIR (cn @ ''.revoked''))))"
proof -
  from assms obtain q where "resolve fs (joinpath CERTS_DIR (cn @ ''.revoked'')) = Inr q"
    "lookup (tree fs) q = Some (File s)"
    by (auto simp: stat_def split: sum.splits option.splits)
  then have "rmtree fs (joinpath CERTS_DIR (cn @ ''.revoked'')) = Inl ENOTDIR"
    by (simp add: rmtree_def)
  with assms show ?thesis
    by (simp add: mark_revoked_def Let_def exists_def raise_from_def)
qed

lemma mark_revoked_stale_read_only:
  assumes "stat fs (joinpath CERTS_DIR (cn @ ''.revoked'')) = Inr (Dir es)" "read_only fs"
  shows "mark_revoked cn fs
           = Inl (OSError EROFS (str_path (joinpath CERTS_DIR (cn @ ''.revoked''))))"
proof -
  from assms(1) obtain q where "resolve fs (joinpath CERTS_DIR (cn @ ''.revoked'')) = Inr q"
    "lookup (tree fs) q = Some (Dir es)"
    by (auto simp: stat_def split: sum.splits option.splits)
  with assms(2) have "rmtree fs (joinpath CERTS_DIR (cn @ ''.revoked'')) = Inl EROFS"
    by (simp add: rmtree_def)
  with assms show ?thesis
    by (simp add: mark_revoked_def Let_def exists_def raise_from_def)
qed

lemma mark_revoked_absent_read_only:
  assumes "stat fs (joinpath CERTS_DIR (cn @ ''.revoked'')) = Inl e" "ignore_error e"
    and "read_only fs"
  shows "mark_revoked cn fs = Inr fs"
  using assms
    os_rename_read_only [of fs "joinpath CERTS_DIR cn" "joinpath CERTS_DIR (cn @ ''.revoked'')"]
  by (auto simp: mark_revoked_def Let_def exists_def raise_from_def split: sum.splits)

lemma mark_revoked_returns:
  assumes v: "valid_name cn" and w: "\<not> read_only fs"
    and dst: "\<And>s. stat fs (joinpath CERTS_DIR (cn @ ''.revoked'')) \<noteq> Inr (File s)"
      "\<And>e. stat fs (joinpath CERTS_DIR (cn @ ''.revoked'')) = Inl e \<Longrightarrow> ignore_error e"
  shows "\<exists>fs'. mark_revoked cn fs = Inr fs'"
proof -
  let ?dst = "Path ''/'' [''app'', ''certs'', cn @ ''.revoked'']"
  from v have p: "joinpath CERTS_DIR (cn @ ''.revoked'') = ?dst" by (simp add: suffixed_dir_eq)
  from v have plain: "''..'' \<notin> set (parts ?dst)" by (auto simp: valid_name_def)
  show ?thesis
  proof (cases "stat fs ?dst")
    case (Inl e)
    with dst(2) p have "exists fs ?dst = Inr False" by (simp add: exists_def)
    then show ?thesis
      unfolding mark_revoked_valid [OF v] by (auto simp: raise_from_def split: sum.splits)
  next
    case (Inr n)
    with dst(1) p obtain es where n: "n = Dir es" by (cases n) auto
    from Inr obtain q where q: "resolve fs ?dst = Inr q" "lookup (tree fs) q = Some n"
      by (auto simp: stat_def split: sum.splits option.splits)
    from resolve_plain [OF plain q(1)] have "q = [''app'', ''certs'', cn @ ''.revoked'']" by simp
    with q n w have "\<exists>fs1. rmtree fs ?dst = Inr fs1" by (simp add: rmtree_def)
    moreover from Inr have "exists fs ?dst = Inr True" by (simp add: exists_def)
    ultimately show ?thesis
      unfolding mark_revoked_valid [OF v] by (auto simp: raise_from_def split: sum.splits)
  qed
qed

text \<open>
  C9, as stated: when the revoke command exits with a code other than 0 and its
  standard error contains \<^verbatim>\<open>already revoked\<close>, the directory is renamed and success is
  returned. On a read-only file system success is returned and the directory of \<^verbatim>\<open>dev1\<close>
  is where it was: the rename was tried and its failure dropped.
\<close>

theorem already_revoked_counterexample:
  "revoke_certificate
       (example_env (done_ok ''TOK'') (failed ''error: Certificate Already Revoked''))
       ''dev1'' ''77'' \<lparr>fsys = example_fs [(''dev1'', dev1_dir)] True, invoked = []\<rparr>
     = (Inr (True, ''Certificate was already revoked. Cleaned up local files.''),
        \<lparr>fsys = example_fs [(''dev1'', dev1_dir)] True,
         invoked = [[''step'', ''ca'', ''token'', ''77'', ''--revoke'',
                     ''--ca-url'', ''https://step-ca:9000'',
                     ''--root'', ''/home/step/certs/root_ca.crt'',
                     ''--provisioner'', ''iot-devices'',
                     ''--provisioner-password-file'', ''/home/step/secrets/password''],
                    [''step'', ''ca'', ''revoke'', ''77'',
                     ''--ca-url'', ''https://step-ca:9000'',
                     ''--root'', ''/home/step/certs/root_ca.crt'',
                     ''--token'', ''TOK'']]\<rparr>)
   \<and> returncode (failed ''error: Certificate Already Revoked'') \<noteq> 0
   \<and> str_in ''already revoked'' (lower (stderr (failed ''error: Certificate Already Revoked'')))
   \<and> is_dir (example_fs [(''dev1'', dev1_dir)] True) (joinpath CERTS_DIR ''dev1'') = Inr True
   \<and> exists (example_fs [(''dev1'', dev1_dir)] True) (joinpath CERTS_DIR (''dev1'' @ ''.revoked''))
       = Inr False"
  by code_simp

text \<open>
  C9, amended. Let the common name \<^verbatim>\<open>cn\<close> be one path component whose certificate file
  exists, let the token command exit with 0 and the revoke command with another code
  while its standard error, in lower case, contains \<^verbatim>\<open>already revoked\<close>, and let
  \<^verbatim>\<open>CERTS_DIR/cn\<close> be a directory after the two commands. Then the outcome of
  \<^verbatim>\<open>revoke_certificate\<close> is decided by \<^verbatim>\<open>CERTS_DIR/cn.revoked\<close> and by the file system:

  \<^item> the name \<^verbatim>\<open>cn.revoked\<close> is longer than \<^verbatim>\<open>NAME_MAX\<close>, 255 bytes: \<^verbatim>\<open>exists()\<close> raises
    \<^verbatim>\<open>OSError\<close> (\<^verbatim>\<open>ENAMETOOLONG\<close>), and the exception leaves the function;

  and otherwise

  \<^item> nothing is there, read-only file system: the rename fails, the failure is dropped,
    and the function returns success with the message
    \<^verbatim>\<open>Certificate was already revoked. Cleaned up local files.\<close>, the files as they were;
  \<^item> nothing is there, writable file system: the same success, and the directory is at
    \<^verbatim>\<open>CERTS_DIR/cn.revoked\<close> afterwards, \<^verbatim>\<open>CERTS_DIR/cn\<close> is gone;
  \<^item> a regular file is there: \<^verbatim>\<open>rmtree\<close> raises \<^verbatim>\<open>OSError\<close> (\<^verbatim>\<open>ENOTDIR\<close>), which leaves
    the function;
  \<^item> a directory is there, read-only file system: \<^verbatim>\<open>rmtree\<close> raises \<^verbatim>\<open>OSError\<close>
    (\<^verbatim>\<open>EROFS\<close>), which leaves the function;
  \<^item> a directory is there, writable file system: it is removed, the function returns
    the same success, and the directory of the certificate is at \<^verbatim>\<open>CERTS_DIR/cn.revoked\<close>
    afterwards, \<^verbatim>\<open>CERTS_DIR/cn\<close> is gone.
\<close>

theorem already_revoked_is_success:
  assumes "valid_name cn"
    and "exists (fsys w) (joinpath (joinpath CERTS_DIR cn) (cn @ ''.crt'')) = Inr True"
    and "run_step_command ev (token_cmd ev serial) w = (Inr token_result, w1)"
    and "returncode token_result = 0"
    and "run_step_command ev (revoke_cmd ev serial (strip (stdout token_result))) w1
           = (Inr result, w2)"
    and "returncode result \<noteq> 0"
    and "str_in ''already revoked'' (lower (stderr result))"
    and "is_dir (fsys w2) (joinpath CERTS_DIR cn) = Inr True"
  shows
    "if NAME_MAX < utf8_len (cn @ ''.revoked'') then
       revoke_certificate ev cn serial w =
         (Inl (OSError ENAMETOOLONG (str_path (joinpath CERTS_DIR (cn @ ''.revoked'')))), w2)
     else
       (case stat (fsys w2) (joinpath CERTS_DIR (cn @ ''.revoked'')) of
          Inl e \<Rightarrow>
            if read_only (fsys w2) then
              revoke_certificate ev cn serial w =
                (Inr (True, ''Certificate was already revoked. Cleaned up local files.''), w2)
            else
              (\<exists>fs3. revoke_certificate ev cn serial w =
                        (Inr (True, ''Certificate was already revoked. Cleaned up local files.''),
                         w2\<lparr>fsys := fs3\<rparr>)
                    \<and> stat fs3 (joinpath CERTS_DIR (cn @ ''.revoked''))
                        = stat (fsys w2) (joinpath CERTS_DIR cn)
                    \<and> exists fs3 (joinpath CERTS_DIR cn) = Inr False)
        | Inr (File s) \<Rightarrow>
            revoke_certificate ev cn serial w =
              (Inl (OSError ENOTDIR (str_path (joinpath CERTS_DIR (cn @ ''.revoked'')))), w2)
        | Inr (Dir es) \<Rightarrow>
            if read_only (fsys w2) then
              revoke_certificate ev cn serial w =
                (Inl (OSError EROFS (str_path (joinpath CERTS_DIR (cn @ ''.revoked'')))), w2)
            else
              (\<exists>fs3. revoke_certificate ev cn serial w =
                        (Inr (True, ''Certificate was already revoked. Cleaned up local files.''),
                         w2\<lparr>fsys := fs3\<rparr>)
                    \<and> stat fs3 (joinpath CERTS_DIR (cn @ ''.revoked''))
                        = stat (fsys w2) (joinpath CERTS_DIR cn)
                    \<and> exists fs3 (joinpath CERTS_DIR cn) = Inr False))"
proof -
  let ?src = "joinpath CERTS_DIR cn"
  let ?dst = "joinpath CERTS_DIR (cn @ ''.revoked'')"
  let ?ok = "(True, ''Certificate was already revoked. Cleaned up local files.'')"
  note v = assms(1)
  from v have ne: "cn \<noteq> ''..''" "cn @ ''.revoked'' \<noteq> ''..''"
    by (auto simp: valid_name_def)
  from v have src: "?src = Path ''/'' [''app'', ''certs'', cn]" by (simp add: cert_dir_eq)
  from v have dst: "?dst = Path ''/'' [''app'', ''certs'', cn @ ''.revoked'']"
    by (simp add: suffixed_dir_eq)
  from assms(2-7) have rc: "revoke_certificate ev cn serial w =
      (case mark_revoked cn (fsys w2) of
         Inl e \<Rightarrow> (Inl e, w2)
       | Inr fs3 \<Rightarrow> (Inr ?ok, w2\<lparr>fsys := fs3\<rparr>))"
    by (simp add: revoke_certificate_def Let_def raise_from_def split: sum.splits)
  from assms(8) obtain ds where st: "stat (fsys w2) ?src = Inr (Dir ds)"
    by (auto simp: is_dir_def split: sum.splits node.splits if_splits)
  from v have "''..'' \<notin> set (parts (Path ''/'' [''app'', ''certs'', cn]))"
    by (auto simp: valid_name_def)
  from stat_plain_Inr [OF this, of "fsys w2" "Dir ds"] st src
  have ds: "lookup (tree (fsys w2)) [''app'', ''certs'', cn] = Some (Dir ds)" by simp
  from certs_is_dir [OF ds] obtain cs
    where cs: "lookup (tree (fsys w2)) [''app'', ''certs''] = Some (Dir cs)" by auto
  note sd = stat_in_certs [OF ne(2) cs]
  have moved: "\<exists>fs3. revoke_certificate ev cn serial w = (Inr ?ok, w2\<lparr>fsys := fs3\<rparr>)
                 \<and> stat fs3 ?dst = stat (fsys w2) ?src
                 \<and> exists fs3 ?src = Inr False"
    if w: "\<not> read_only (fsys w2)"
      and nf: "\<And>s. stat (fsys w2) ?dst \<noteq> Inr (File s)"
      and nl: "\<And>e. stat (fsys w2) ?dst = Inl e \<Longrightarrow> ignore_error e"
  proof -
    from mark_revoked_returns [OF v w nf nl] obtain fs3
      where m: "mark_revoked cn (fsys w2) = Inr fs3" by auto
    from mark_revoked_moves [OF v w ds m]
    have a: "lookup (tree fs3) [''app'', ''certs'', cn @ ''.revoked''] = Some (Dir ds)"
      and b: "lookup (tree fs3) [''app'', ''certs'', cn] = None"
      and short': "utf8_len (cn @ ''.revoked'') \<le> NAME_MAX" by simp_all
    from short' have short: "utf8_len cn \<le> NAME_MAX" by (simp add: utf8_len_append)
    from certs_is_dir [OF a] obtain cs'
      where cs': "lookup (tree fs3) [''app'', ''certs''] = Some (Dir cs')" by auto
    from a short' have 1: "stat fs3 ?dst = Inr (Dir ds)"
      using stat_in_certs [OF ne(2) cs'] by (simp add: dst)
    from b short have 2: "exists fs3 ?src = Inr False"
      using exists_in_certs [OF ne(1) cs'] by (simp add: src)
    from rc m 1 2 st show ?thesis by (intro exI [of _ fs3]) simp
  qed
  show ?thesis
  proof (cases "NAME_MAX < utf8_len (cn @ ''.revoked'')")
    case True
    with sd have "stat (fsys w2) ?dst = Inl ENAMETOOLONG" by (simp add: dst)
    from mark_revoked_raises [OF this] rc True show ?thesis by (simp add: ignore_error_def)
  next
    case short: False
    show ?thesis
    proof (cases "stat (fsys w2) ?dst")
      case (Inl e)
      with short sd have ig: "ignore_error e"
        by (auto simp: dst ignore_error_def split: option.splits)
      show ?thesis
      proof (cases "read_only (fsys w2)")
        case True
        from mark_revoked_absent_read_only [OF Inl ig True] rc Inl short True
        show ?thesis by simp
      next
        case ro: False
        have "\<exists>fs3. revoke_certificate ev cn serial w = (Inr ?ok, w2\<lparr>fsys := fs3\<rparr>)
                 \<and> stat fs3 ?dst = stat (fsys w2) ?src
                 \<and> exists fs3 ?src = Inr False"
          using Inl ig by (intro moved [OF ro]) auto
        with Inl short ro show ?thesis by simp
      qed
    next
      case (Inr n)
      show ?thesis
      proof (cases n)
        case (File s)
        with Inr short mark_revoked_file_in_way [of "fsys w2" cn s] rc show ?thesis by simp
      next
        case (Dir es)
        show ?thesis
        proof (cases "read_only (fsys w2)")
          case True
          with Inr Dir short mark_revoked_stale_read_only [of "fsys w2" cn es] rc
          show ?thesis by simp
        next
          case ro: False
          have "\<exists>fs3. revoke_certificate ev cn serial w = (Inr ?ok, w2\<lparr>fsys := fs3\<rparr>)
                 \<and> stat fs3 ?dst = stat (fsys w2) ?src
                 \<and> exists fs3 ?src = Inr False"
            using Inr Dir by (intro moved [OF ro]) auto
          with Inr Dir short ro show ?thesis by simp
        qed
      qed
    qed
  qed
qed

text \<open>The second revocation of \<^verbatim>\<open>dev1\<close> on a writable file system that holds a
  directory \<^verbatim>\<open>dev1.revoked\<close> from before: the CA answers that the certificate is already
  revoked, the old directory is replaced. And the same for a common name of 250 letters:
  the call raises.\<close>

theorem already_revoked_is_success_witness:
  "fst (revoke_certificate
          (example_env (done_ok ''TOK'') (failed ''error: Certificate Already Revoked''))
          ''dev1'' ''77''
          \<lparr>fsys = example_fs [(''dev1'', dev1_dir), (''dev1.revoked'', Dir [(''old'', File [])])] False,
           invoked = []\<rparr>)
     = Inr (True, ''Certificate was already revoked. Cleaned up local files.'')
   \<and> stat (fsys (snd (revoke_certificate
          (example_env (done_ok ''TOK'') (failed ''error: Certificate Already Revoked''))
          ''dev1'' ''77''
          \<lparr>fsys = example_fs [(''dev1'', dev1_dir), (''dev1.revoked'', Dir [(''old'', File [])])] False,
           invoked = []\<rparr>)))
        (joinpath CERTS_DIR (''dev1'' @ ''.revoked''))
     = Inr dev1_dir
   \<and> exists (fsys (snd (revoke_certificate
          (example_env (done_ok ''TOK'') (failed ''error: Certificate Already Revoked''))
          ''dev1'' ''77''
          \<lparr>fsys = example_fs [(''dev1'', dev1_dir), (''dev1.revoked'', Dir [(''old'', File [])])] False,
           invoked = []\<rparr>)))
        (joinpath CERTS_DIR ''dev1'')
     = Inr False
   \<and> valid_name long_name
   \<and> NAME_MAX < utf8_len (long_name @ ''.revoked'')
   \<and> exists (example_fs [(long_name, Dir [(long_name @ ''.crt'', File ''CERT'')])] False)
        (joinpath (joinpath CERTS_DIR long_name) (long_name @ ''.crt'')) = Inr True
   \<and> fst (revoke_certificate
          (example_env (done_ok ''TOK'') (failed ''error: Certificate Already Revoked''))
          long_name ''77''
          \<lparr>fsys = example_fs [(long_name, Dir [(long_name @ ''.crt'', File ''CERT'')])] False,
           invoked = []\<rparr>)
     = Inl (OSError ENAMETOOLONG (''/app/certs/'' @ long_name @ ''.revoked''))"
proof -
  let ?ev = "example_env (done_ok ''TOK'') (failed ''error: Certificate Already Revoked'')"
  have 3: "returncode (done_ok ''TOK'') = 0" by (simp add: done_ok_def)
  have s: "strip (stdout (done_ok ''TOK'')) = ''TOK''" by code_simp
  have 5: "returncode (failed ''error: Certificate Already Revoked'') \<noteq> 0"
    by (simp add: failed_def)
  have 6: "str_in ''already revoked''
             (lower (stderr (failed ''error: Certificate Already Revoked'')))"
    by code_simp
  have a: "fst (revoke_certificate ?ev ''dev1'' ''77''
                 \<lparr>fsys = example_fs [(''dev1'', dev1_dir), (''dev1.revoked'', Dir [(''old'', File [])])] False,
                  invoked = []\<rparr>)
             = Inr (True, ''Certificate was already revoked. Cleaned up local files.'')
         \<and> stat (fsys (snd (revoke_certificate ?ev ''dev1'' ''77''
                 \<lparr>fsys = example_fs [(''dev1'', dev1_dir), (''dev1.revoked'', Dir [(''old'', File [])])] False,
                  invoked = []\<rparr>)))
              (joinpath CERTS_DIR (''dev1'' @ ''.revoked''))
             = Inr dev1_dir
         \<and> exists (fsys (snd (revoke_certificate ?ev ''dev1'' ''77''
                 \<lparr>fsys = example_fs [(''dev1'', dev1_dir), (''dev1.revoked'', Dir [(''old'', File [])])] False,
                  invoked = []\<rparr>)))
              (joinpath CERTS_DIR ''dev1'')
             = Inr False"
  proof -
    let ?fs = "example_fs [(''dev1'', dev1_dir), (''dev1.revoked'', Dir [(''old'', File [])])] False"
    let ?w = "\<lparr>fsys = ?fs, invoked = []\<rparr>"
    let ?w1 = "\<lparr>fsys = ?fs, invoked = [''step'' # token_cmd ?ev ''77'']\<rparr>"
    let ?w2 = "\<lparr>fsys = ?fs, invoked = [''step'' # token_cmd ?ev ''77'',
                                          ''step'' # revoke_cmd ?ev ''77'' ''TOK'']\<rparr>"
    have v: "valid_name ''dev1''" by (simp add: valid_name_def)
    have 1: "exists (fsys ?w) (joinpath (joinpath CERTS_DIR ''dev1'') (''dev1'' @ ''.crt''))
               = Inr True"
      by code_simp
    have 2: "run_step_command ?ev (token_cmd ?ev ''77'') ?w = (Inr (done_ok ''TOK''), ?w1)"
      by code_simp
    have 4: "run_step_command ?ev (revoke_cmd ?ev ''77'' (strip (stdout (done_ok ''TOK'')))) ?w1
               = (Inr (failed ''error: Certificate Already Revoked''), ?w2)"
      unfolding s by code_simp
    have d: "is_dir (fsys ?w2) (joinpath CERTS_DIR ''dev1'') = Inr True" by code_simp
    have n: "stat (fsys ?w2) (joinpath CERTS_DIR (''dev1'' @ ''.revoked''))
               = Inr (Dir [(''old'', File [])])"
      by code_simp
    have o: "stat (fsys ?w2) (joinpath CERTS_DIR ''dev1'') = Inr dev1_dir" by code_simp
    have wr: "\<not> read_only (fsys ?w2)" by (simp add: example_fs_def)
    have sh: "\<not> NAME_MAX < utf8_len (''dev1'' @ ''.revoked'')" by code_simp
    from already_revoked_is_success [OF v 1 2 3 4 5 6 d] n o wr sh
    show ?thesis by auto
  qed
  have b: "valid_name long_name
         \<and> NAME_MAX < utf8_len (long_name @ ''.revoked'')
         \<and> exists (example_fs [(long_name, Dir [(long_name @ ''.crt'', File ''CERT'')])] False)
              (joinpath (joinpath CERTS_DIR long_name) (long_name @ ''.crt'')) = Inr True
         \<and> fst (revoke_certificate ?ev long_name ''77''
                 \<lparr>fsys = example_fs [(long_name, Dir [(long_name @ ''.crt'', File ''CERT'')])] False,
                  invoked = []\<rparr>)
             = Inl (OSError ENAMETOOLONG (''/app/certs/'' @ long_name @ ''.revoked''))"
  proof -
    let ?fs = "example_fs [(long_name, Dir [(long_name @ ''.crt'', File ''CERT'')])] False"
    let ?w = "\<lparr>fsys = ?fs, invoked = []\<rparr>"
    let ?w1 = "\<lparr>fsys = ?fs, invoked = [''step'' # token_cmd ?ev ''77'']\<rparr>"
    let ?w2 = "\<lparr>fsys = ?fs, invoked = [''step'' # token_cmd ?ev ''77'',
                                          ''step'' # revoke_cmd ?ev ''77'' ''TOK'']\<rparr>"
    have v: "valid_name long_name" by code_simp
    have 1: "exists (fsys ?w) (joinpath (joinpath CERTS_DIR long_name) (long_name @ ''.crt''))
               = Inr True"
      by code_simp
    have 2: "run_step_command ?ev (token_cmd ?ev ''77'') ?w = (Inr (done_ok ''TOK''), ?w1)"
      by code_simp
    have 4: "run_step_command ?ev (revoke_cmd ?ev ''77'' (strip (stdout (done_ok ''TOK'')))) ?w1
               = (Inr (failed ''error: Certificate Already Revoked''), ?w2)"
      unfolding s by code_simp
    have d: "is_dir (fsys ?w2) (joinpath CERTS_DIR long_name) = Inr True" by code_simp
    have n: "NAME_MAX < utf8_len (long_name @ ''.revoked'')" by code_simp
    have p: "str_path (joinpath CERTS_DIR (long_name @ ''.revoked''))
               = ''/app/certs/'' @ long_name @ ''.revoked''"
      using v by (simp add: suffixed_dir_eq str_path_def)
    from already_revoked_is_success [OF v 1 2 3 4 5 6 d] n p 1
    show ?thesis using v n by simp
  qed
  from a b show ?thesis by simp
qed

section \<open>C6: what a successful issue leaves on disk and what it returns\<close>

lemma issue_success:
  assumes "issue_certificate ev cn cert_type validity_days sans w = (Inr (True, msg, files), w')"
  shows "\<exists>fs1 result.
           mkdir (fsys w) (joinpath CERTS_DIR cn) = Inr fs1
           \<and> subprocess_run ev (last (invoked w')) [(''STEPPATH'', ''/home/step'')] fs1
                = Inr (result, fsys w')
           \<and> returncode result = 0
           \<and> read_generated_files ev (fsys w')
                (joinpath (joinpath CERTS_DIR cn) (cn @ ''.crt''))
                (joinpath (joinpath CERTS_DIR cn) (cn @ ''.key'')) = Inr files"
  using assms
  by (auto simp: issue_certificate_def run_step_command_def Let_def raise_from_def
           split: sum.splits prod.splits if_splits)

lemma read_generated_files_Inr:
  assumes "read_generated_files ev fs cert_file key_file = Inr files"
  shows "\<exists>cert key ca. files = [(''cert'', cert), (''key'', key), (''ca'', ca)]
           \<and> read_text ev fs cert_file = Inr cert \<and> read_text ev fs key_file = Inr key
           \<and> read_text ev fs CA_BUNDLE = Inr ca"
  using assms
  by (auto simp: read_generated_files_def split: sum.splits)

lemma text_in_cert_dir:
  assumes v: "valid_name cn" and sfx: "CHR ''/'' \<notin> set sfx" "sfx \<noteq> []"
    and r: "read_text ev fs (joinpath (joinpath CERTS_DIR cn) (cn @ sfx)) = Inr text"
  shows "\<exists>es bytes decoded.
           stat fs (joinpath CERTS_DIR cn) = Inr (Dir es)
           \<and> map_of es (cn @ sfx) = Some (File bytes)
           \<and> decode ev bytes = Inr decoded \<and> text = universal_newlines decoded"
proof -
  from v sfx have p: "joinpath (joinpath CERTS_DIR cn) (cn @ sfx)
                        = Path ''/'' [''app'', ''certs'', cn, cn @ sfx]"
    by (simp add: cert_file_eq)
  from v sfx have plain: "''..'' \<notin> set (parts (Path ''/'' [''app'', ''certs'', cn, cn @ sfx]))"
    by (auto simp: valid_name_def Cons_eq_append_conv)
  from v have ne: "cn \<noteq> ''..''" by (auto simp: valid_name_def)
  from r p obtain bytes decoded
    where b: "stat fs (Path ''/'' [''app'', ''certs'', cn, cn @ sfx]) = Inr (File bytes)"
      and d: "decode ev bytes = Inr decoded" "text = universal_newlines decoded"
    by (auto simp: read_text_def read_file_def raise_from_def split: sum.splits node.splits)
  from stat_plain_Inr [OF plain b]
  have l: "lookup (tree fs) ([''app'', ''certs'', cn] @ [cn @ sfx]) = Some (File bytes)"
    and short: "utf8_len cn \<le> NAME_MAX" by simp_all
  from l obtain es where es: "lookup (tree fs) [''app'', ''certs'', cn] = Some (Dir es)"
    and f: "map_of es (cn @ sfx) = Some (File bytes)"
    unfolding lookup_entry by auto
  from certs_is_dir [OF es] obtain cs
    where cs: "lookup (tree fs) [''app'', ''certs''] = Some (Dir cs)" by auto
  from es short have "stat fs (joinpath CERTS_DIR cn) = Inr (Dir es)"
    using stat_in_certs [OF ne cs] by (simp add: cert_dir_eq [OF v])
  with f d show ?thesis by blast
qed

text \<open>
  C6, as stated: after a successful issue the directory \<^verbatim>\<open>CERTS_DIR/cn\<close> holds the
  certificate, the key and the CA chain. The function writes nothing itself; the tool
  writes the certificate and the key, and the CA chain is read from \<^verbatim>\<open>CA_BUNDLE\<close>,
  outside \<^verbatim>\<open>CERTS_DIR\<close>, into the dictionary that is returned. After issuing \<^verbatim>\<open>dev1\<close>
  the directory holds two files, neither with the bytes of the chain.
\<close>

theorem issued_bundle_counterexample:
  "issue_certificate (example_env (done_ok []) (done_ok [])) ''dev1'' ''Client'' 30 None
       \<lparr>fsys = example_fs [] False, invoked = []\<rparr>
     = (Inr (True, ''Certificate issued successfully'',
             [(''cert'', ''CERT''), (''key'', ''KEY''), (''ca'', ''CA'')]),
        \<lparr>fsys = example_fs [(''dev1'', dev1_dir)] False,
         invoked = [[''step'', ''ca'', ''certificate'', ''dev1'',
                     ''/app/certs/dev1/dev1.crt'', ''/app/certs/dev1/dev1.key'',
                     ''--ca-url'', ''https://step-ca:9000'',
                     ''--root'', ''/home/step/certs/root_ca.crt'',
                     ''--not-after'', ''720h'', ''--provisioner'', ''iot-devices'',
                     ''--provisioner-password-file'', ''/home/step/secrets/password'',
                     ''--force'']]\<rparr>)
   \<and> stat (example_fs [(''dev1'', dev1_dir)] False) (joinpath CERTS_DIR ''dev1'')
       = Inr (Dir [(''dev1.crt'', File ''CERT''), (''dev1.key'', File ''KEY'')])"
  by code_simp

text \<open>
  C6, amended. After \<^verbatim>\<open>issue_certificate\<close> returns success, for every common name:
  the dictionary returned holds, under \<^verbatim>\<open>cert\<close>, \<^verbatim>\<open>key\<close> and \<^verbatim>\<open>ca\<close>, the text of the
  certificate file, of the key file and of \<^verbatim>\<open>CA_BUNDLE\<close> as they are once the tool has
  run, read in text mode (the bytes decoded, the line ends translated). The function
  writes no file itself: it creates directories, which leaves every regular file as it
  was, and the file system afterwards is the one that the tool left when it exited with
  code 0.

  For a common name of one path component, moreover, \<^verbatim>\<open>CERTS_DIR/cn\<close> is a directory
  afterwards that contains regular files \<^verbatim>\<open>cn.crt\<close> and \<^verbatim>\<open>cn.key\<close>, whose bytes decode
  to the certificate and the key returned, and \<^verbatim>\<open>CA_BUNDLE\<close> is not below this
  directory: the CA chain is read from outside of it.
\<close>

theorem issued_bundle:
  assumes "issue_certificate ev cn cert_type validity_days sans w = (Inr (True, msg, files), w')"
  shows "\<exists>cert key ca fs1 result.
           files = [(''cert'', cert), (''key'', key), (''ca'', ca)]
           \<and> read_text ev (fsys w') (joinpath (joinpath CERTS_DIR cn) (cn @ ''.crt'')) = Inr cert
           \<and> read_text ev (fsys w') (joinpath (joinpath CERTS_DIR cn) (cn @ ''.key'')) = Inr key
           \<and> read_text ev (fsys w') CA_BUNDLE = Inr ca
           \<and> mkdir (fsys w) (joinpath CERTS_DIR cn) = Inr fs1
           \<and> (\<forall>r s. (lookup (tree fs1) r = Some (File s))
                      = (lookup (tree (fsys w)) r = Some (File s)))
           \<and> subprocess_run ev (last (invoked w')) [(''STEPPATH'', ''/home/step'')] fs1
                = Inr (result, fsys w')
           \<and> returncode result = 0
           \<and> (valid_name cn \<longrightarrow>
                (\<exists>es cert_bytes cert_text key_bytes key_text.
                    stat (fsys w') (joinpath CERTS_DIR cn) = Inr (Dir es)
                    \<and> map_of es (cn @ ''.crt'') = Some (File cert_bytes)
                    \<and> decode ev cert_bytes = Inr cert_text
                    \<and> cert = universal_newlines cert_text
                    \<and> map_of es (cn @ ''.key'') = Some (File key_bytes)
                    \<and> decode ev key_bytes = Inr key_text
                    \<and> key = universal_newlines key_text)
                \<and> \<not> prefix (parts (joinpath CERTS_DIR cn)) (parts CA_BUNDLE))"
proof -
  from issue_success [OF assms] obtain fs1 result where
    m: "mkdir (fsys w) (joinpath CERTS_DIR cn) = Inr fs1"
    and t: "subprocess_run ev (last (invoked w')) [(''STEPPATH'', ''/home/step'')] fs1
              = Inr (result, fsys w')"
    and z: "returncode result = 0"
    and g: "read_generated_files ev (fsys w')
                (joinpath (joinpath CERTS_DIR cn) (cn @ ''.crt''))
                (joinpath (joinpath CERTS_DIR cn) (cn @ ''.key'')) = Inr files"
    by blast
  from read_generated_files_Inr [OF g] obtain cert key ca where
    f: "files = [(''cert'', cert), (''key'', key), (''ca'', ca)]"
    and c: "read_text ev (fsys w') (joinpath (joinpath CERTS_DIR cn) (cn @ ''.crt'')) = Inr cert"
    and k: "read_text ev (fsys w') (joinpath (joinpath CERTS_DIR cn) (cn @ ''.key'')) = Inr key"
    and a: "read_text ev (fsys w') CA_BUNDLE = Inr ca"
    by blast
  have fr: "\<forall>r s. (lookup (tree fs1) r = Some (File s))
                   = (lookup (tree (fsys w)) r = Some (File s))"
    using mkdir_frame(2) [OF m] by (simp add: kind_at_Regular)
  have "parts CA_BUNDLE = [''home'', ''step'', ''certs'', ''ca-bundle.crt'']"
    by (simp add: CA_BUNDLE_def parse_path_def components_def)
  then have out: "\<not> prefix (parts (joinpath CERTS_DIR cn)) (parts CA_BUNDLE)" if "valid_name cn"
    using that by (simp add: cert_dir_eq)
  have "\<exists>es cert_bytes cert_text key_bytes key_text.
                    stat (fsys w') (joinpath CERTS_DIR cn) = Inr (Dir es)
                    \<and> map_of es (cn @ ''.crt'') = Some (File cert_bytes)
                    \<and> decode ev cert_bytes = Inr cert_text
                    \<and> cert = universal_newlines cert_text
                    \<and> map_of es (cn @ ''.key'') = Some (File key_bytes)
                    \<and> decode ev key_bytes = Inr key_text
                    \<and> key = universal_newlines key_text"
    if v: "valid_name cn"
  proof -
    from text_in_cert_dir [OF v _ _ c] obtain es cert_bytes cert_text where
      1: "stat (fsys w') (joinpath CERTS_DIR cn) = Inr (Dir es)"
         "map_of es (cn @ ''.crt'') = Some (File cert_bytes)"
         "decode ev cert_bytes = Inr cert_text" "cert = universal_newlines cert_text"
      by auto
    from text_in_cert_dir [OF v _ _ k] obtain es' key_bytes key_text where
      2: "stat (fsys w') (joinpath CERTS_DIR cn) = Inr (Dir es')"
         "map_of es' (cn @ ''.key'') = Some (File key_bytes)"
         "decode ev key_bytes = Inr key_text" "key = universal_newlines key_text"
      by auto
    from 1 2 have "es' = es" by simp
    with 1 2 show ?thesis by blast
  qed
  with out
  have "valid_name cn \<longrightarrow>
                (\<exists>es cert_bytes cert_text key_bytes key_text.
                    stat (fsys w') (joinpath CERTS_DIR cn) = Inr (Dir es)
                    \<and> map_of es (cn @ ''.crt'') = Some (File cert_bytes)
                    \<and> decode ev cert_bytes = Inr cert_text
                    \<and> cert = universal_newlines cert_text
                    \<and> map_of es (cn @ ''.key'') = Some (File key_bytes)
                    \<and> decode ev key_bytes = Inr key_text
                    \<and> key = universal_newlines key_text)
                \<and> \<not> prefix (parts (joinpath CERTS_DIR cn)) (parts CA_BUNDLE)"
    by simp
  with f c k a m fr t z show ?thesis by blast
qed

text \<open>Issuing \<^verbatim>\<open>dev1\<close> where the CA bundle has the line ends \<^verbatim>\<open>\r\n\<close> and \<^verbatim>\<open>\r\<close>: the
  chain returned has \<^verbatim>\<open>\n\<close> in their place.\<close>

theorem issued_bundle_witness:
  "valid_name ''dev1''
   \<and> fst (issue_certificate (example_env (done_ok []) (done_ok [])) ''dev1'' ''Client'' 30 None
            \<lparr>fsys = crlf_fs, invoked = []\<rparr>)
       = Inr (True, ''Certificate issued successfully'',
              [(''cert'', ''CERT''), (''key'', ''KEY''),
               (''ca'', ''CA'' @ [CHR 0x0A] @ ''chain'' @ [CHR 0x0A])])
   \<and> read_file (fsys (snd (issue_certificate (example_env (done_ok []) (done_ok [])) ''dev1''
                             ''Client'' 30 None \<lparr>fsys = crlf_fs, invoked = []\<rparr>)))
        CA_BUNDLE
       = Inr (''CA'' @ [CHR 0x0D, CHR 0x0A] @ ''chain'' @ [CHR 0x0D])
   \<and> stat (fsys (snd (issue_certificate (example_env (done_ok []) (done_ok [])) ''dev1''
                        ''Client'' 30 None \<lparr>fsys = crlf_fs, invoked = []\<rparr>)))
        (joinpath CERTS_DIR ''dev1'')
       = Inr dev1_dir
   \<and> \<not> prefix (parts (joinpath CERTS_DIR ''dev1'')) (parts CA_BUNDLE)"
proof -
  let ?ev = "example_env (done_ok []) (done_ok [])"
  let ?w = "\<lparr>fsys = crlf_fs, invoked = []\<rparr>"
  have v: "valid_name ''dev1''" by (simp add: valid_name_def)
  have r: "fst (issue_certificate ?ev ''dev1'' ''Client'' 30 None ?w)
             = Inr (True, ''Certificate issued successfully'',
                    [(''cert'', ''CERT''), (''key'', ''KEY''),
                     (''ca'', ''CA'' @ [CHR 0x0A] @ ''chain'' @ [CHR 0x0A])])"
    by code_simp
  then have r': "issue_certificate ?ev ''dev1'' ''Client'' 30 None ?w
             = (Inr (True, ''Certificate issued successfully'',
                     [(''cert'', ''CERT''), (''key'', ''KEY''),
                      (''ca'', ''CA'' @ [CHR 0x0A] @ ''chain'' @ [CHR 0x0A])]),
                snd (issue_certificate ?ev ''dev1'' ''Client'' 30 None ?w))"
    by (cases "issue_certificate ?ev ''dev1'' ''Client'' 30 None ?w") simp
  have b: "read_file (fsys (snd (issue_certificate ?ev ''dev1'' ''Client'' 30 None ?w))) CA_BUNDLE
             = Inr (''CA'' @ [CHR 0x0D, CHR 0x0A] @ ''chain'' @ [CHR 0x0D])"
    by code_simp
  have c: "stat (fsys (snd (issue_certificate ?ev ''dev1'' ''Client'' 30 None ?w)))
             (joinpath CERTS_DIR ''dev1'') = Inr dev1_dir"
    by code_simp
  from issued_bundle [OF r'] v
  have "\<not> prefix (parts (joinpath CERTS_DIR ''dev1'')) (parts CA_BUNDLE)"
    by blast
  with v r b c show ?thesis by simp
qed

section \<open>C8: revoked directories in the listing\<close>

lemma name_child: "name (child p e) = e"
  by (simp add: name_def child_def)

lemma e_cn_describe_cert: "e_cn (describe_cert ev fs d f) = name d"
  by (simp add: describe_cert_def split: sum.splits)

lemma collect_certs_Inr:
  "collect_certs ev fs entries certs = Inr out \<Longrightarrow>
     e_cn ` set out =
       e_cn ` set certs \<union>
       {e \<in> set entries. is_dir fs (child CERTS_DIR e) = Inr True
                           \<and> exists fs (joinpath (child CERTS_DIR e) (e @ ''.crt'')) = Inr True}
     \<and> (\<forall>e \<in> set entries. is_dir fs (child CERTS_DIR e) = Inr True \<longrightarrow>
            (\<exists>x. exists fs (joinpath (child CERTS_DIR e) (e @ ''.crt'')) = Inr x))"
proof (induction entries arbitrary: certs)
  case Nil
  then show ?case by simp
next
  case (Cons entry entries)
  let ?d = "child CERTS_DIR entry"
  let ?f = "joinpath ?d (entry @ ''.crt'')"
  from Cons.prems obtain d where d: "is_dir fs ?d = Inr d"
    by (auto simp: Let_def raise_from_def split: sum.splits)
  show ?case
  proof (cases d)
    case False
    with d Cons.prems have "collect_certs ev fs entries certs = Inr out"
      by (simp add: Let_def raise_from_def)
    from Cons.IH [OF this] d False show ?thesis by auto
  next
    case True
    with d Cons.prems obtain x where x: "exists fs ?f = Inr x"
      by (auto simp: Let_def raise_from_def name_child split: sum.splits)
    show ?thesis
    proof (cases x)
      case False
      with d True x Cons.prems have "collect_certs ev fs entries certs = Inr out"
        by (simp add: Let_def raise_from_def name_child)
      from Cons.IH [OF this] d x False show ?thesis by auto
    next
      case yes: True
      with d True x Cons.prems
      have "collect_certs ev fs entries (certs @ [describe_cert ev fs ?d ?f]) = Inr out"
        by (simp add: Let_def raise_from_def name_child)
      from Cons.IH [OF this] d x yes True show ?thesis
        by (auto simp: e_cn_describe_cert name_child)
    qed
  qed
qed

lemma list_certificates_Inr:
  assumes "list_certificates ev w = (Inr certs, w')"
  shows "\<exists>entries. listdir (fsys w) CERTS_DIR = Inr entries
           \<and> e_cn ` set certs =
               {e \<in> set entries. is_dir (fsys w) (child CERTS_DIR e) = Inr True
                  \<and> exists (fsys w) (joinpath (child CERTS_DIR e) (e @ ''.crt'')) = Inr True}
           \<and> (\<forall>e \<in> set entries. is_dir (fsys w) (child CERTS_DIR e) = Inr True \<longrightarrow>
                 (\<exists>x. exists (fsys w) (joinpath (child CERTS_DIR e) (e @ ''.crt'')) = Inr x))"
proof -
  from assms obtain entries out where l: "listdir (fsys w) CERTS_DIR = Inr entries"
    and c: "collect_certs ev (fsys w) entries [] = Inr out" and s: "certs = sort_key e_cn out"
    by (auto simp: list_certificates_def raise_from_def split: sum.splits)
  from s have "e_cn ` set certs = e_cn ` set out" by simp
  with collect_certs_Inr [OF c] l show ?thesis by simp
qed

lemma utf8_len_cert_file_path:
  "utf8_len (str_path (Path ''/'' [''app'', ''certs'', a, b])) = 12 + utf8_len a + utf8_len b"
  by (simp add: str_path_def utf8_len_def)

text \<open>A path in a directory of \<^verbatim>\<open>CERTS_DIR\<close>.\<close>

lemma exists_in_cert_dir:
  assumes "a \<noteq> ''..''" "b \<noteq> ''..''" "utf8_len a \<le> NAME_MAX"
    and d: "lookup (tree fs) [''app'', ''certs'', a] = Some (Dir es)"
  shows "exists fs (Path ''/'' [''app'', ''certs'', a, b]) =
           (if NAME_MAX < utf8_len b then Inl ENAMETOOLONG else Inr (map_of es b \<noteq> None))"
proof -
  have w: "walk (tree fs) [] [''app'', ''certs'', a] = Inr [''app'', ''certs'', a]"
    using walk_plain [of "[''app'', ''certs'', a]" "tree fs" "[]" "Dir es"] assms
    by (simp add: utf8_len_def NAME_MAX_def)
  have "walk (tree fs) [] ([''app'', ''certs'', a] @ [b]) =
          (if NAME_MAX < utf8_len b then Inl ENAMETOOLONG else Inr [''app'', ''certs'', a, b])"
    unfolding walk_append w using assms by simp
  then have r: "resolve fs (Path ''/'' [''app'', ''certs'', a, b]) =
          (if NAME_MAX < utf8_len b then Inl ENAMETOOLONG else Inr [''app'', ''certs'', a, b])"
    using assms(3)
    by (auto simp: resolve_def utf8_len_cert_file_path PATH_MAX_def NAME_MAX_def)
  have "lookup (tree fs) ([''app'', ''certs'', a] @ [b]) = map_of es b"
    using d lookup_append [of "tree fs" "[''app'', ''certs'', a]" "[b]"]
    by (simp split: option.splits)
  with r show ?thesis
    by (auto simp: exists_def stat_def ignore_error_def split: option.splits)
qed

text \<open>A directory of \<^verbatim>\<open>CERTS_DIR\<close> with a name of one component is listed exactly when
  its certificate file exists.\<close>

lemma listed_in_certs:
  assumes l: "list_certificates ev w = (Inr certs, w')"
    and v: "valid_name d" and short: "utf8_len d \<le> NAME_MAX"
    and es: "lookup (tree (fsys w)) [''app'', ''certs'', d] = Some (Dir es)"
  shows "(d \<in> e_cn ` set certs)
           = (exists (fsys w) (Path ''/'' [''app'', ''certs'', d, d @ ''.crt'']) = Inr True)
         \<and> (\<exists>x. exists (fsys w) (Path ''/'' [''app'', ''certs'', d, d @ ''.crt'']) = Inr x)"
proof -
  from v have ne: "d \<noteq> ''..''" by (auto simp: valid_name_def)
  from certs_is_dir [OF es] obtain cs
    where cs: "lookup (tree (fsys w)) [''app'', ''certs''] = Some (Dir cs)" by auto
  from list_certificates_Inr [OF l] obtain entries where
    ls: "listdir (fsys w) CERTS_DIR = Inr entries"
    and cns: "e_cn ` set certs =
               {e \<in> set entries. is_dir (fsys w) (child CERTS_DIR e) = Inr True
                  \<and> exists (fsys w) (joinpath (child CERTS_DIR e) (e @ ''.crt'')) = Inr True}"
    and ok: "\<forall>e \<in> set entries. is_dir (fsys w) (child CERTS_DIR e) = Inr True \<longrightarrow>
                 (\<exists>x. exists (fsys w) (joinpath (child CERTS_DIR e) (e @ ''.crt'')) = Inr x)"
    by blast
  have ch: "child CERTS_DIR d = Path ''/'' [''app'', ''certs'', d]"
    by (simp add: child_def CERTS_DIR_eq)
  have dir: "is_dir (fsys w) (child CERTS_DIR d) = Inr True"
    using stat_in_certs [OF ne cs] es short by (simp add: is_dir_def ch)
  have "stat (fsys w) CERTS_DIR = Inr (Dir cs)"
    using stat_plain_intro [of "Path ''/'' [''app'', ''certs'']" "fsys w" "Dir cs"] cs
    by (simp add: CERTS_DIR_eq utf8_len_def str_path_def NAME_MAX_def PATH_MAX_def)
  with ls have entries: "entries = remdups (map fst cs)" by (simp add: listdir_def)
  from es cs have "map_of cs d = Some (Dir es)"
    using lookup_entry [of "tree (fsys w)" "[''app'', ''certs'']" d "Dir es"] by simp
  then have inl: "d \<in> set entries"
    unfolding entries by (auto dest: map_of_SomeD intro: image_eqI [where x = "(d, Dir es)"])
  from v have f: "joinpath (child CERTS_DIR d) (d @ ''.crt'')
                     = Path ''/'' [''app'', ''certs'', d, d @ ''.crt'']"
    using joinpath_plain [of "d @ ''.crt''" "child CERTS_DIR d"]
    by (auto simp: ch valid_name_def)
  from cns inl dir ok show ?thesis unfolding f [symmetric] by auto
qed

text \<open>
  C8, as stated: revoked certificates never appear in the listing, because the
  revocation renames the directory. Two ways in which they do. On a read-only file
  system the revocation of \<^verbatim>\<open>dev1\<close> returns success, the rename has failed, and the
  listing still has \<^verbatim>\<open>dev1\<close> as \<^verbatim>\<open>Active\<close>. And a directory named \<^verbatim>\<open>dev1.revoked\<close> is
  listed when it holds a file \<^verbatim>\<open>dev1.revoked.crt\<close>: after \<^verbatim>\<open>dev1\<close> is issued and revoked,
  issuing a certificate for the common name \<^verbatim>\<open>dev1.revoked\<close> (the form accepts dots)
  writes that file into the directory of the revoked certificate.
\<close>

theorem revoked_dir_listing_counterexample:
  "fst (revoke_certificate (example_env (done_ok ''TOK'') (done_ok [])) ''dev1'' ''77''
          \<lparr>fsys = example_fs [(''dev1'', dev1_dir)] True, invoked = []\<rparr>)
     = Inr (True, ''Certificate revoked successfully'')
   \<and> fst (list_certificates (example_env (done_ok ''TOK'') (done_ok []))
            (snd (revoke_certificate (example_env (done_ok ''TOK'') (done_ok [])) ''dev1'' ''77''
                    \<lparr>fsys = example_fs [(''dev1'', dev1_dir)] True, invoked = []\<rparr>)))
     = Inr [\<lparr>e_cn = ''dev1'', e_issued = ''100'', e_expires = ''200'', e_serial = ''77'',
             e_status = ''Active''\<rparr>]
   \<and> fst (list_certificates (example_env (done_ok ''TOK'') (done_ok []))
            (run_ops (example_env (done_ok ''TOK'') (done_ok []))
               [Issue ''dev1'' ''Client'' 30 None, Revoke ''dev1'' ''77'',
                Issue ''dev1.revoked'' ''Client'' 30 None]
               \<lparr>fsys = example_fs [] False, invoked = []\<rparr>))
     = Inr [\<lparr>e_cn = ''dev1'' @ ''.revoked'', e_issued = ''100'', e_expires = ''200'',
             e_serial = ''77'', e_status = ''Active''\<rparr>]"
  by code_simp

text \<open>
  C8, amended. \<^verbatim>\<open>list_certificates\<close>, when it returns, has an entry for a name exactly
  when \<^verbatim>\<open>CERTS_DIR\<close> has a directory of that name in which a file of that name with
  \<^verbatim>\<open>.crt\<close> appended exists. Let \<^verbatim>\<open>revoke_certificate\<close> have returned success for a
  common name \<^verbatim>\<open>cn\<close> of one path component, the two calls of the tool having left the
  files alone, and let the listing be taken afterwards. On a writable file system it has
  no entry \<^verbatim>\<open>cn\<close>, and it has an entry \<^verbatim>\<open>cn.revoked\<close> exactly when the directory of
  the certificate held a file \<^verbatim>\<open>cn.revoked.crt\<close> before the revocation. On a read-only
  file system, where the rename has failed, it still has the entry \<^verbatim>\<open>cn\<close>.
\<close>

theorem revoked_dir_not_listed:
  "(list_certificates ev w0 = (Inr certs0, w1) \<longrightarrow>
      (\<forall>d. (d \<in> e_cn ` set certs0) =
            (\<exists>entries. listdir (fsys w0) CERTS_DIR = Inr entries \<and> d \<in> set entries
               \<and> is_dir (fsys w0) (child CERTS_DIR d) = Inr True
               \<and> exists (fsys w0) (joinpath (child CERTS_DIR d) (d @ ''.crt'')) = Inr True)))
   \<and> (valid_name cn \<and> revocation_leaves_files ev serial (fsys w) \<and> \<not> read_only (fsys w)
        \<and> revoke_certificate ev cn serial w = (Inr (True, msg), w')
        \<and> list_certificates ev w' = (Inr certs, w'')
      \<longrightarrow> cn \<notin> e_cn ` set certs
          \<and> ((cn @ ''.revoked'' \<in> e_cn ` set certs)
               = (exists (fsys w) (joinpath (joinpath CERTS_DIR cn) (cn @ ''.revoked.crt''))
                    = Inr True)))
   \<and> (valid_name cn \<and> revocation_leaves_files ev serial (fsys w) \<and> read_only (fsys w)
        \<and> revoke_certificate ev cn serial w = (Inr (True, msg), w')
        \<and> list_certificates ev w' = (Inr certs, w'')
      \<longrightarrow> cn \<in> e_cn ` set certs)"
proof (intro conjI; rule impI)
  assume "list_certificates ev w0 = (Inr certs0, w1)"
  from list_certificates_Inr [OF this]
  show "\<forall>d. (d \<in> e_cn ` set certs0) =
            (\<exists>entries. listdir (fsys w0) CERTS_DIR = Inr entries \<and> d \<in> set entries
               \<and> is_dir (fsys w0) (child CERTS_DIR d) = Inr True
               \<and> exists (fsys w0) (joinpath (child CERTS_DIR d) (d @ ''.crt'')) = Inr True)"
    by auto
next
  assume a: "valid_name cn \<and> revocation_leaves_files ev serial (fsys w) \<and> \<not> read_only (fsys w)
        \<and> revoke_certificate ev cn serial w = (Inr (True, msg), w')
        \<and> list_certificates ev w' = (Inr certs, w'')"
  then have v: "valid_name cn" and q: "revocation_leaves_files ev serial (fsys w)"
    and wr: "\<not> read_only (fsys w)"
    and r: "revoke_certificate ev cn serial w = (Inr (True, msg), w')"
    and l: "list_certificates ev w' = (Inr certs, w'')" by simp_all
  let ?rv = "cn @ ''.revoked''"
  from v have vr: "valid_name ?rv" by (simp add: valid_name_suffixed)
  from v vr have ne: "cn \<noteq> ''..''" "?rv \<noteq> ''..''" "?rv @ ''.crt'' \<noteq> ''..''"
    by (auto simp: valid_name_def)
  from revoke_success_quiet [OF q r]
  have e: "exists (fsys w) (joinpath (joinpath CERTS_DIR cn) (cn @ ''.crt'')) = Inr True"
    and m: "mark_revoked cn (fsys w) = Inr (fsys w')" by simp_all
  from cert_file_gives_dir [OF v e] obtain es
    where es: "lookup (tree (fsys w)) [''app'', ''certs'', cn] = Some (Dir es)"
      and short: "utf8_len cn \<le> NAME_MAX" by auto
  from mark_revoked_moves [OF v wr es m]
  have moved: "lookup (tree (fsys w')) [''app'', ''certs'', ?rv] = Some (Dir es)"
    and gone: "lookup (tree (fsys w')) [''app'', ''certs'', cn] = None"
    and short': "utf8_len ?rv \<le> NAME_MAX" by simp_all
  from certs_is_dir [OF moved] obtain cs
    where cs: "lookup (tree (fsys w')) [''app'', ''certs''] = Some (Dir cs)" by auto
  from list_certificates_Inr [OF l] obtain entries where
    cns: "e_cn ` set certs =
               {e \<in> set entries. is_dir (fsys w') (child CERTS_DIR e) = Inr True
                  \<and> exists (fsys w') (joinpath (child CERTS_DIR e) (e @ ''.crt'')) = Inr True}"
    by blast
  have ch: "child CERTS_DIR x = Path ''/'' [''app'', ''certs'', x]" for x
    by (simp add: child_def CERTS_DIR_eq)
  have "is_dir (fsys w') (child CERTS_DIR cn) = Inr False"
    using stat_in_certs [OF ne(1) cs] gone short by (simp add: is_dir_def ch ignore_error_def)
  with cns have 1: "cn \<notin> e_cn ` set certs" by simp
  from v have f: "joinpath (joinpath CERTS_DIR cn) (cn @ ''.revoked.crt'')
                     = Path ''/'' [''app'', ''certs'', cn, ?rv @ ''.crt'']"
    using cert_file_eq [OF v, of "''.revoked.crt''"] by simp
  from listed_in_certs [OF l vr short' moved] obtain x
    where listed: "(?rv \<in> e_cn ` set certs)
             = (exists (fsys w') (Path ''/'' [''app'', ''certs'', ?rv, ?rv @ ''.crt'']) = Inr True)"
      and x: "exists (fsys w') (Path ''/'' [''app'', ''certs'', ?rv, ?rv @ ''.crt'']) = Inr x"
    by auto
  from x exists_in_cert_dir [OF ne(2) ne(3) short' moved]
  have s: "\<not> NAME_MAX < utf8_len (?rv @ ''.crt'')"
    and after: "exists (fsys w') (Path ''/'' [''app'', ''certs'', ?rv, ?rv @ ''.crt''])
                  = Inr (map_of es (?rv @ ''.crt'') \<noteq> None)"
    by (auto split: if_splits)
  from exists_in_cert_dir [OF ne(1) ne(3) short es] s
  have before: "exists (fsys w) (Path ''/'' [''app'', ''certs'', cn, ?rv @ ''.crt''])
                  = Inr (map_of es (?rv @ ''.crt'') \<noteq> None)"
    by simp
  from listed after before f have 2: "(?rv \<in> e_cn ` set certs)
      = (exists (fsys w) (joinpath (joinpath CERTS_DIR cn) (cn @ ''.revoked.crt'')) = Inr True)"
    by simp
  from 1 2 show "cn \<notin> e_cn ` set certs
          \<and> ((cn @ ''.revoked'' \<in> e_cn ` set certs)
               = (exists (fsys w) (joinpath (joinpath CERTS_DIR cn) (cn @ ''.revoked.crt''))
                    = Inr True))"
    by simp
next
  assume a: "valid_name cn \<and> revocation_leaves_files ev serial (fsys w) \<and> read_only (fsys w)
        \<and> revoke_certificate ev cn serial w = (Inr (True, msg), w')
        \<and> list_certificates ev w' = (Inr certs, w'')"
  then have v: "valid_name cn" and q: "revocation_leaves_files ev serial (fsys w)"
    and ro: "read_only (fsys w)"
    and r: "revoke_certificate ev cn serial w = (Inr (True, msg), w')"
    and l: "list_certificates ev w' = (Inr certs, w'')" by simp_all
  from revoke_success_quiet [OF q r]
  have e: "exists (fsys w) (joinpath (joinpath CERTS_DIR cn) (cn @ ''.crt'')) = Inr True"
    and m: "mark_revoked cn (fsys w) = Inr (fsys w')" by simp_all
  from mark_revoked_read_only [OF ro m] have same: "fsys w' = fsys w" .
  from cert_file_gives_dir [OF v e] obtain es
    where es: "lookup (tree (fsys w)) [''app'', ''certs'', cn] = Some (Dir es)"
      and short: "utf8_len cn \<le> NAME_MAX" by auto
  from listed_in_certs [OF l v short] es same e
  show "cn \<in> e_cn ` set certs"
    by (simp add: cert_file_eq [OF v])
qed

text \<open>With \<^verbatim>\<open>dev1\<close> and \<^verbatim>\<open>dev2\<close> issued, \<^verbatim>\<open>dev1\<close> is revoked on a writable file system:
  the listing has the entry of \<^verbatim>\<open>dev2\<close> alone.\<close>

theorem revoked_dir_not_listed_witness:
  "valid_name ''dev1''
   \<and> revocation_leaves_files (example_env (done_ok ''TOK'') (done_ok [])) ''77''
        (example_fs [(''dev1'', dev1_dir), (''dev2'', Dir [(''dev2.crt'', File ''CERT'')])] False)
   \<and> fst (revoke_certificate (example_env (done_ok ''TOK'') (done_ok [])) ''dev1'' ''77''
            \<lparr>fsys = example_fs [(''dev1'', dev1_dir),
                                 (''dev2'', Dir [(''dev2.crt'', File ''CERT'')])] False,
             invoked = []\<rparr>)
       = Inr (True, ''Certificate revoked successfully'')
   \<and> fst (list_certificates (example_env (done_ok ''TOK'') (done_ok []))
            (snd (revoke_certificate (example_env (done_ok ''TOK'') (done_ok [])) ''dev1'' ''77''
                    \<lparr>fsys = example_fs [(''dev1'', dev1_dir),
                                         (''dev2'', Dir [(''dev2.crt'', File ''CERT'')])] False,
                     invoked = []\<rparr>)))
       = Inr [\<lparr>e_cn = ''dev2'', e_issued = ''100'', e_expires = ''200'', e_serial = ''77'',
               e_status = ''Active''\<rparr>]
   \<and> ''dev1'' \<notin> e_cn ` set [\<lparr>e_cn = ''dev2'', e_issued = ''100'', e_expires = ''200'',
                               e_serial = ''77'', e_status = ''Active''\<rparr>]
   \<and> ''dev1'' @ ''.revoked'' \<notin> e_cn ` set [\<lparr>e_cn = ''dev2'', e_issued = ''100'',
                               e_expires = ''200'', e_serial = ''77'', e_status = ''Active''\<rparr>]"
proof -
  let ?ev = "example_env (done_ok ''TOK'') (done_ok [])"
  let ?fs = "example_fs [(''dev1'', dev1_dir), (''dev2'', Dir [(''dev2.crt'', File ''CERT'')])] False"
  let ?w = "\<lparr>fsys = ?fs, invoked = []\<rparr>"
  let ?w' = "snd (revoke_certificate ?ev ''dev1'' ''77'' ?w)"
  let ?certs = "[\<lparr>e_cn = ''dev2'', e_issued = ''100'', e_expires = ''200'', e_serial = ''77'',
                  e_status = ''Active''\<rparr>]"
  have v: "valid_name ''dev1''" by (simp add: valid_name_def)
  have q: "revocation_leaves_files ?ev ''77'' ?fs" by code_simp
  have wr: "\<not> read_only (fsys ?w)" by (simp add: example_fs_def)
  have r: "fst (revoke_certificate ?ev ''dev1'' ''77'' ?w)
             = Inr (True, ''Certificate revoked successfully'')" by code_simp
  then have r': "revoke_certificate ?ev ''dev1'' ''77'' ?w
             = (Inr (True, ''Certificate revoked successfully''), ?w')"
    by (cases "revoke_certificate ?ev ''dev1'' ''77'' ?w") simp
  have l: "fst (list_certificates ?ev ?w') = Inr ?certs" by code_simp
  then have l': "list_certificates ?ev ?w' = (Inr ?certs, snd (list_certificates ?ev ?w'))"
    by (cases "list_certificates ?ev ?w'") simp
  have n: "exists (fsys ?w) (joinpath (joinpath CERTS_DIR ''dev1'') (''dev1'' @ ''.revoked.crt''))
             = Inr False"
    by code_simp
  from revoked_dir_not_listed [where cn = "''dev1''" and ev = ?ev and serial = "''77''"
      and w = ?w and w' = ?w' and certs = ?certs
      and msg = "''Certificate revoked successfully''"
      and w'' = "snd (list_certificates ?ev ?w')"] v q wr r' l' n
  have "''dev1'' \<notin> e_cn ` set ?certs \<and> ''dev1'' @ ''.revoked'' \<notin> e_cn ` set ?certs"
    by simp
  with v q r l show ?thesis by simp
qed

section \<open>C5: the two directories of a common name\<close>



















end
